theory Spec2Isabelle
  imports Main
begin

unbundle bit_operations_syntax

section \<open>Tensors, errors and the tensor primitives used by modeling_mists.py\<close>

text \<open>
  A two-dimensional tensor is a list of rows. A batch of zero rows is the empty list and
  is read as the tensor of shape (0, 0). Embedding vectors (the last dimension of
  \<open>inputs_embeds\<close> and of the time-series features) are the elements of a type with a
  zero, so that \<open>torch.zeros\<close> and the assignment \<open>= 0\<close> of a whole vector can be
  written down; the merge only ever copies or zeroes them. Device moves
  (\<open>.to(device)\<close>) keep every value and are left out; the dtype conversions of
  \<open>forward\<close> are operations of the model.

  Exceptions are values: \<open>ValueError\<close> is the one exception the source raises itself
  (line 189); \<open>RuntimeFault\<close> stands for every exception that comes out of the tensor
  runtime or the interpreter (IndexError, RuntimeError, AttributeError, TypeError).
\<close>

datatype error = ValueError | RuntimeFault

definition bind_err :: "error + 'a \<Rightarrow> ('a \<Rightarrow> error + 'b) \<Rightarrow> error + 'b" where
  "bind_err m f = (case m of Inl e \<Rightarrow> Inl e | Inr x \<Rightarrow> f x)"

text \<open>
  \<open>torch.cumsum(xs, -1)\<close> on one row: the running sum, left to right. This exact
  running sum is used for lines 147 and 186 only. Line 186 sums booleans along the fused
  length, a tensor dimension; line 147 sums, along a row of input_ids, numbers between 1
  and the number of patches, so its sums stay below sequence_length times the number of
  patches. Both are exact as long as that product is below \<open>2 ^ 63\<close>. The running sum of the
  attention mask (line 196), whose entries are arbitrary, wraps: see \<open>cumsum64\<close>.
\<close>

fun cumsum_from :: "int \<Rightarrow> int list \<Rightarrow> int list" where
  "cumsum_from acc [] = []"
| "cumsum_from acc (x # xs) = (acc + x) # cumsum_from (acc + x) xs"

definition cumsum :: "int list \<Rightarrow> int list" where
  "cumsum xs = cumsum_from 0 xs"

text \<open>
  Integer tensors hold signed 64-bit numbers: \<open>wrap64 x\<close> is the number an int64 tensor
  holds for the exact result \<open>x\<close>. \<open>cumsum64\<close> is \<open>torch.cumsum\<close> on a row of arbitrary
  int64 entries (the attention mask of line 196), wrapping at every step.
\<close>

definition wrap64 :: "int \<Rightarrow> int" where
  "wrap64 x = (x + 2 ^ 63) mod 2 ^ 64 - 2 ^ 63"

fun cumsum64_from :: "int \<Rightarrow> int list \<Rightarrow> int list" where
  "cumsum64_from acc [] = []"
| "cumsum64_from acc (x # xs) = wrap64 (acc + x) # cumsum64_from (wrap64 (acc + x)) xs"

definition cumsum64 :: "int list \<Rightarrow> int list" where
  "cumsum64 xs = cumsum64_from 0 xs"

text \<open>
  \<open>torch.where(cond)\<close> on a two-dimensional condition: the (row, column) pairs at
  which the condition holds, in row-major order.
\<close>

definition torch_where :: "('a \<Rightarrow> bool) \<Rightarrow> 'a list list \<Rightarrow> (nat \<times> nat) list" where
  "torch_where c t =
     concat (map (\<lambda>b. map (\<lambda>j. (b, j)) (filter (\<lambda>j. c (t ! b ! j)) [0..<length (t ! b)]))
       [0..<length t])"

text \<open>
  Advanced indexing. A column index \<open>i\<close> into a dimension of size \<open>n\<close> is accepted when
  \<open>-n \<le> i < n\<close>, a negative one counting from the end; anything else raises IndexError.
\<close>

definition index_ok :: "nat \<Rightarrow> int \<Rightarrow> bool" where
  "index_ok n i \<longleftrightarrow> - int n \<le> i \<and> i < int n"

definition norm_index :: "nat \<Rightarrow> int \<Rightarrow> nat" where
  "norm_index n i = nat (if i < 0 then i + int n else i)"

text \<open>\<open>t[rows, cols]\<close> read with non-negative index lists (the output of \<open>torch.where\<close>).\<close>

definition index_get :: "'a list list \<Rightarrow> (nat \<times> nat) list \<Rightarrow> error + 'a list" where
  "index_get t idx =
     (if list_all (\<lambda>(b, j). b < length t \<and> j < length (t ! b)) idx
      then Inr (map (\<lambda>(b, j). t ! b ! j) idx)
      else Inl RuntimeFault)"

text \<open>
  \<open>t[rows, cols] = vals\<close>: every index is checked, then the values are written one after
  the other, so that of two writes to one place the later one stays.
\<close>

definition put_one :: "(nat \<times> int) \<times> 'a \<Rightarrow> 'a list list \<Rightarrow> 'a list list" where
  "put_one w t =
     (case w of ((b, i), v) \<Rightarrow> t[b := (t ! b)[norm_index (length (t ! b)) i := v]])"

definition index_put :: "'a list list \<Rightarrow> (nat \<times> int) list \<Rightarrow> 'a list \<Rightarrow> error + 'a list list" where
  "index_put t idx vals =
     (if list_all (\<lambda>(b, i). b < length t \<and> index_ok (length (t ! b)) i) idx
         \<and> length vals = length idx
      then Inr (fold put_one (zip idx vals) t)
      else Inl RuntimeFault)"

text \<open>\<open>t[rows, cols] = v\<close> with one scalar (or one vector) \<open>v\<close> broadcast to every index.\<close>

definition index_fill :: "'a list list \<Rightarrow> (nat \<times> int) list \<Rightarrow> 'a \<Rightarrow> error + 'a list list" where
  "index_fill t idx v = index_put t idx (replicate (length idx) v)"

text \<open>Number of True entries of a boolean row, and of a boolean tensor (\<open>mask.sum()\<close>).\<close>

definition count_true :: "bool list \<Rightarrow> nat" where
  "count_true ms = length (filter (\<lambda>m. m) ms)"

definition count_true2 :: "bool list list \<Rightarrow> nat" where
  "count_true2 m = sum_list (map count_true m)"

text \<open>
  \<open>t[mask] = src\<close> with a boolean mask of the shape of \<open>t\<close>: the selected places, in
  row-major order, receive the rows of \<open>src\<close> in order; the runtime raises when the
  number of selected places is not the number of rows of \<open>src\<close>.
\<close>

definition masked_put :: "'a list list \<Rightarrow> bool list list \<Rightarrow> 'a list \<Rightarrow> error + 'a list list" where
  "masked_put t sel src =
     (if count_true2 sel = length src
      then Inr (map (\<lambda>b. map (\<lambda>q.
                  if sel ! b ! q
                  then src ! (count_true2 (take b sel) + count_true (take q (sel ! b)))
                  else t ! b ! q) [0..<length (t ! b)]) [0..<length t])
      else Inl RuntimeFault)"

section \<open>Configuration and inputs\<close>

text \<open>
  The three configuration values the merge reads. \<open>pad_token_id\<close> is
  \<open>self.pad_token_id\<close>, which the constructor sets to -1 when the configuration has none.
\<close>

record mists_config =
  pad_token_id :: int
  time_series_token_index :: int
  ignore_index :: int

text \<open>
  \<open>time_series_features\<close>, a tensor of shape (num_time_series, num_time_series_patches,
  embed_dim): its first two dimensions and its rows after
  \<open>.contiguous().reshape(-1, embed_dim)\<close>.
\<close>

record 'e ts_features =
  num_time_series :: nat
  num_time_series_patches :: nat
  flat_features :: "'e list"

section \<open>The merge: \<open>_merge_input_ids_with_time_series_features\<close>\<close>

text \<open>Line 133: \<open>not torch.sum(input_ids[:, -1] == pad_token_id)\<close>.\<close>

definition left_padding :: "mists_config \<Rightarrow> int list list \<Rightarrow> bool" where
  "left_padding cfg input_ids \<longleftrightarrow>
     \<not> (sum_list (map (\<lambda>row. if last row = pad_token_id cfg then 1 else 0) input_ids) \<noteq> (0::int))"

text \<open>Lines 135-136.\<close>

definition special_time_series_token_mask :: "mists_config \<Rightarrow> int list list \<Rightarrow> bool list list" where
  "special_time_series_token_mask cfg input_ids =
     map (map (\<lambda>t. t = time_series_token_index cfg)) input_ids"

definition num_special_time_series_tokens :: "mists_config \<Rightarrow> int list list \<Rightarrow> int list" where
  "num_special_time_series_tokens cfg input_ids =
     map (\<lambda>row. int (count_true row)) (special_time_series_token_mask cfg input_ids)"

text \<open>Lines 138-139; \<open>.max()\<close> of the non-empty count vector.\<close>

definition max_embed_dim :: "mists_config \<Rightarrow> nat \<Rightarrow> int list list \<Rightarrow> int" where
  "max_embed_dim cfg P input_ids =
     (let ns = num_special_time_series_tokens cfg input_ids
      in fold max ns (hd ns) * (int P - 1) + int (length (hd input_ids)))"

text \<open>Line 147: the destinations before the left-padding offset.\<close>

definition natural_positions :: "mists_config \<Rightarrow> nat \<Rightarrow> int list list \<Rightarrow> int list list" where
  "natural_positions cfg P input_ids =
     map (\<lambda>row. map (\<lambda>c. c - 1) (cumsum (map (\<lambda>m. of_bool m * (int P - 1) + 1) row)))
       (special_time_series_token_mask cfg input_ids)"

text \<open>Line 148.\<close>

definition nb_time_series_pad :: "mists_config \<Rightarrow> nat \<Rightarrow> int list list \<Rightarrow> int list" where
  "nb_time_series_pad cfg P input_ids =
     map (\<lambda>row. max_embed_dim cfg P input_ids - 1 - last row) (natural_positions cfg P input_ids)"

text \<open>Lines 149-150: \<open>new_token_positions\<close> as every later line reads it.\<close>

definition new_token_positions :: "mists_config \<Rightarrow> nat \<Rightarrow> int list list \<Rightarrow> int list list" where
  "new_token_positions cfg P input_ids =
     (if left_padding cfg input_ids
      then map (\<lambda>(row, p). map (\<lambda>x. x + p) row)
             (zip (natural_positions cfg P input_ids) (nb_time_series_pad cfg P input_ids))
      else natural_positions cfg P input_ids)"

text \<open>
  Lines 140 and 151: the (row, column) places of the tokens that are not the placeholder,
  and the (row, destination) index pairs \<open>(batch_indices, text_to_overwrite)\<close>.
\<close>

definition non_time_series_indices :: "mists_config \<Rightarrow> int list list \<Rightarrow> (nat \<times> nat) list" where
  "non_time_series_indices cfg input_ids =
     torch_where (\<lambda>t. t \<noteq> time_series_token_index cfg) input_ids"

definition text_to_overwrite :: "mists_config \<Rightarrow> nat \<Rightarrow> int list list \<Rightarrow> (nat \<times> int) list" where
  "text_to_overwrite cfg P input_ids =
     map (\<lambda>(b, j). (b, new_token_positions cfg P input_ids ! b ! j))
       (non_time_series_indices cfg input_ids)"

text \<open>Lines 199-200: the places of the pad tokens and their destinations.\<close>

definition indices_to_mask :: "mists_config \<Rightarrow> nat \<Rightarrow> int list list \<Rightarrow> (nat \<times> int) list" where
  "indices_to_mask cfg P input_ids =
     map (\<lambda>(b, j). (b, new_token_positions cfg P input_ids ! b ! j))
       (torch_where (\<lambda>t. t = pad_token_id cfg) input_ids)"

text \<open>
  Line 186, on one row: \<open>row &= row.cumsum(-1) - 1 >= p\<close>.
\<close>

definition drop_leading_slots :: "bool list \<Rightarrow> int \<Rightarrow> bool list" where
  "drop_leading_slots row p =
     map (\<lambda>(t, c). t \<and> c - 1 \<ge> p) (zip row (cumsum (map of_bool row)))"

text \<open>Lines 182-186: \<open>time_series_to_overwrite\<close>.\<close>

definition time_series_to_overwrite :: "mists_config \<Rightarrow> nat \<Rightarrow> int list list \<Rightarrow> error + bool list list" where
  "time_series_to_overwrite cfg P input_ids =
     (let M = nat (max_embed_dim cfg P input_ids)
      in bind_err
           (index_fill (replicate (length input_ids) (replicate M True))
              (text_to_overwrite cfg P input_ids) False)
           (\<lambda>free. Inr (map (\<lambda>(row, p). drop_leading_slots row p)
                          (zip free (nb_time_series_pad cfg P input_ids)))))"

text \<open>Line 196, on one row of the fused attention mask.\<close>

definition position_ids_row :: "int list \<Rightarrow> int list" where
  "position_ids_row row =
     map (\<lambda>(c, m). if m = 0 then 1 else wrap64 (c - 1)) (zip (cumsum64 row) row)"

text \<open>
  The whole function. The result is \<open>(final_embedding, final_attention_mask,
  final_labels, position_ids)\<close>.
\<close>

definition merge_input_ids_with_time_series_features ::
  "mists_config \<Rightarrow> ('e::zero) ts_features \<Rightarrow> 'e list list \<Rightarrow> int list list \<Rightarrow> int list list
     \<Rightarrow> int list list option
     \<Rightarrow> error + ('e list list \<times> int list list \<times> int list list option \<times> int list list)" where
  "merge_input_ids_with_time_series_features cfg time_series_features inputs_embeds input_ids
       attention_mask labels =
     (let P = num_time_series_patches time_series_features;
          batch_size = length input_ids
      in if batch_size = 0 \<or> hd input_ids = [] then Inl RuntimeFault
         else if max_embed_dim cfg P input_ids < 0 then Inl RuntimeFault
         else
           let M = nat (max_embed_dim cfg P input_ids);
               src = non_time_series_indices cfg input_ids;
               dst = text_to_overwrite cfg P input_ids
           in
           bind_err (index_get inputs_embeds src) (\<lambda>text_embeds.
           bind_err (index_put (replicate batch_size (replicate M 0)) dst text_embeds) (\<lambda>final_embedding.
           bind_err (index_get attention_mask src) (\<lambda>text_mask.
           bind_err (index_put (replicate batch_size (replicate M 0)) dst text_mask) (\<lambda>final_attention_mask.
           bind_err (case labels of
                       None \<Rightarrow> Inr None
                     | Some lab \<Rightarrow>
                         bind_err (index_get lab src) (\<lambda>text_labels.
                         bind_err (index_put (replicate batch_size (replicate M (ignore_index cfg)))
                                     dst text_labels) (\<lambda>fl. Inr (Some fl)))) (\<lambda>final_labels.
           bind_err (time_series_to_overwrite cfg P input_ids) (\<lambda>to_overwrite.
           if count_true2 to_overwrite \<noteq> num_time_series time_series_features * P
           then Inl ValueError
           else
           bind_err (masked_put final_embedding to_overwrite (flat_features time_series_features))
             (\<lambda>final_embedding.
           let final_attention_mask =
                 map (\<lambda>(mrow, trow). map (\<lambda>(m, t). m OR of_bool t) (zip mrow trow))
                   (zip final_attention_mask to_overwrite);
               position_ids = map position_ids_row final_attention_mask
           in
           bind_err (index_fill final_embedding (indices_to_mask cfg P input_ids) 0)
             (\<lambda>final_embedding.
           Inr (final_embedding, final_attention_mask, final_labels, position_ids))))))))))"

section \<open>The projector: \<open>MistsMultiModalProjector\<close>\<close>













section \<open>\<open>MistsForConditionalGeneration.forward\<close> up to the call of the language model\<close>

text \<open>
  The collaborators of \<open>forward\<close>: the configuration, the embedding table of the language
  model (\<open>get_input_embeddings()\<close>, applied to a batch of token ids), the time-series
  tower followed by the projector (lines 248-252), which yields the features handed to the
  merge, and three operations of the tensor runtime on floating-point values that are
  not computed here: the conversion of an embedding vector to the dtype of the features
  (line 254) and to the dtype of the language model (line 296), and the test of line 267
  whether the float32 sum of the key values of one cache slot over the heads is zero.
\<close>

record ('e, 'v, 'w, 'k) mists_model =
  config :: mists_config
  get_input_embeddings :: "int list list \<Rightarrow> error + 'e list list"
  time_series_encoder :: "'v \<Rightarrow> 'w option \<Rightarrow> error + 'e ts_features"
  to_time_series_dtype :: "'e \<Rightarrow> 'e"
  to_language_model_dtype :: "'e \<Rightarrow> 'e"
  float_sum_is_zero :: "'k list \<Rightarrow> bool"

text \<open>
  The slice \<open>past_key_values[0][0][:, :, :, 0]\<close> of the cache, of shape
  (batch, heads, past_length): the stored length and the rows.
\<close>

record 'k first_layer_key =
  past_length :: nat
  key_rows :: "'k list list list"

text \<open>What \<open>forward\<close> passes on: the arguments of \<open>self.language_model(...)\<close> that it
  computes, and the labels used for the loss. The flags \<open>use_cache\<close>,
  \<open>output_attentions\<close>, \<open>output_hidden_states\<close> and \<open>return_dict\<close> and the cache are
  handed over untouched.\<close>

record 'e lm_inputs =
  lm_attention_mask :: "int list list option"
  lm_position_ids :: "int list list option"
  lm_inputs_embeds :: "'e list list"
  lm_labels :: "int list list option"

text \<open>\<open>input_ids.shape[1]\<close>.\<close>

definition shape1 :: "'a list list \<Rightarrow> nat" where
  "shape1 t = (if t = [] then 0 else length (hd t))"

text \<open>
  Line 267: the (row, slot) pairs of the cache at which the sum of the key values over the
  heads is found to be zero.
\<close>

definition non_attended_tokens ::
  "('e, 'v, 'w, 'k) mists_model \<Rightarrow> 'k first_layer_key \<Rightarrow> (nat \<times> nat) list" where
  "non_attended_tokens model kv =
     torch_where (\<lambda>z. z)
       (map (\<lambda>heads. map (\<lambda>t. float_sum_is_zero model (map (\<lambda>h. h ! t) heads))
                        [0..<past_length kv])
          (key_rows kv))"

text \<open>Lines 273-287: \<open>extended_attention_mask\<close> after the zeroes are written.\<close>

definition extended_attention_mask ::
  "('e, 'v, 'w, 'k) mists_model \<Rightarrow> 'k first_layer_key \<Rightarrow> int list list \<Rightarrow> error + int list list" where
  "extended_attention_mask model kv attention_mask =
     (let valid = filter (\<lambda>(b, t). t < past_length kv) (non_attended_tokens model kv)
      in index_fill (replicate (length attention_mask) (replicate (past_length kv) 1))
           (map (\<lambda>(b, t). (b, int t)) valid) 0)"

text \<open>
  Lines 261-290, the decode step with a cache. \<open>torch.sum\<close> of line 290 adds the int64
  entries of a mask row with wrap-around.
\<close>

definition cache_step ::
  "('e, 'v, 'w, 'k) mists_model \<Rightarrow> 'k first_layer_key \<Rightarrow> int list list \<Rightarrow> int list list option
     \<Rightarrow> error + (int list list \<times> int list list)" where
  "cache_step model kv input_ids attention_mask =
     (case attention_mask of
        None \<Rightarrow> Inl RuntimeFault
      | Some am \<Rightarrow>
          let target_length = shape1 input_ids
          in bind_err (extended_attention_mask model kv am) (\<lambda>ext.
             let am' = map (\<lambda>(e, row). e @ drop (length row - target_length) row) (zip ext am);
                 position_ids = map (\<lambda>row. [wrap64 (wrap64 (sum_list row) - 1)]) am'
             in Inr (am', position_ids)))"

text \<open>Lines 242-301.\<close>

definition forward ::
  "('e::zero, 'v, 'w, 'k) mists_model \<Rightarrow> int list list option \<Rightarrow> 'v option \<Rightarrow> 'w option
     \<Rightarrow> int list list option \<Rightarrow> int list list option
     \<Rightarrow> 'k first_layer_key option \<Rightarrow> 'e list list option
     \<Rightarrow> int list list option \<Rightarrow> error + 'e lm_inputs" where
  "forward model input_ids time_series_values time_series_input_mask attention_mask position_ids
       past_key_values inputs_embeds labels =
     (case inputs_embeds of
        Some embeds \<Rightarrow>
          Inr \<lparr>lm_attention_mask = attention_mask, lm_position_ids = position_ids,
               lm_inputs_embeds = map (map (to_language_model_dtype model)) embeds,
               lm_labels = labels\<rparr>
      | None \<Rightarrow>
          (case input_ids of
             None \<Rightarrow> Inl RuntimeFault
           | Some ids \<Rightarrow>
               bind_err (get_input_embeddings model ids) (\<lambda>embeds.
               if time_series_values \<noteq> None \<and> shape1 ids \<noteq> 1 then
                 bind_err (time_series_encoder model (the time_series_values) time_series_input_mask)
                   (\<lambda>time_series_features.
                 (case attention_mask of
                    None \<Rightarrow> Inl RuntimeFault
                  | Some am \<Rightarrow>
                      bind_err (merge_input_ids_with_time_series_features (config model)
                                  time_series_features
                                  (map (map (to_time_series_dtype model)) embeds) ids am labels)
                        (\<lambda>(e, m, l, p).
                           Inr \<lparr>lm_attention_mask = Some m, lm_position_ids = Some p,
                                lm_inputs_embeds = map (map (to_language_model_dtype model)) e,
                                lm_labels = l\<rparr>)))
               else if past_key_values \<noteq> None \<and> time_series_values \<noteq> None \<and> shape1 ids = 1 then
                 bind_err (cache_step model (the past_key_values) ids attention_mask) (\<lambda>(m, p).
                   Inr \<lparr>lm_attention_mask = Some m, lm_position_ids = Some p,
                        lm_inputs_embeds = map (map (to_language_model_dtype model)) embeds,
                        lm_labels = labels\<rparr>)
               else
                 Inr \<lparr>lm_attention_mask = attention_mask, lm_position_ids = position_ids,
                      lm_inputs_embeds = map (map (to_language_model_dtype model)) embeds,
                      lm_labels = labels\<rparr>)))"

section \<open>The shape contract of the merge and the quantities the properties speak of\<close>

text \<open>
  The inputs of the merge as the data model has them: a batch of at least one row and at
  least one column, the embeddings, the attention mask and the labels of the shape of the
  token ids, and as many feature rows as the shape of the feature tensor says.
\<close>

definition has_shape :: "nat \<Rightarrow> nat \<Rightarrow> 'a list list \<Rightarrow> bool" where
  "has_shape B L t \<longleftrightarrow> length t = B \<and> list_all (\<lambda>row. length row = L) t"

definition well_shaped ::
  "'e ts_features \<Rightarrow> 'e list list \<Rightarrow> int list list \<Rightarrow> int list list \<Rightarrow> int list list option \<Rightarrow> bool" where
  "well_shaped tsf inputs_embeds input_ids attention_mask labels \<longleftrightarrow>
     (let B = length input_ids; L = shape1 input_ids
      in 0 < B \<and> 0 < L \<and> has_shape B L input_ids \<and> has_shape B L inputs_embeds
         \<and> has_shape B L attention_mask
         \<and> (case labels of None \<Rightarrow> True | Some lab \<Rightarrow> has_shape B L lab)
         \<and> length (flat_features tsf) = num_time_series tsf * num_time_series_patches tsf)"

text \<open>Number of placeholder tokens in a row, and in the whole batch.\<close>

definition placeholder_count :: "mists_config \<Rightarrow> int list \<Rightarrow> nat" where
  "placeholder_count cfg row = length (filter (\<lambda>t. t = time_series_token_index cfg) row)"

definition total_placeholders :: "mists_config \<Rightarrow> int list list \<Rightarrow> nat" where
  "total_placeholders cfg input_ids = sum_list (map (placeholder_count cfg) input_ids)"

text \<open>
  The fused columns of row \<open>b\<close> that receive an original token that is not the placeholder,
  as the runtime resolves the destination indices.
\<close>

definition text_columns :: "mists_config \<Rightarrow> nat \<Rightarrow> int list list \<Rightarrow> nat \<Rightarrow> nat list" where
  "text_columns cfg P input_ids b =
     map (\<lambda>j. norm_index (nat (max_embed_dim cfg P input_ids)) (new_token_positions cfg P input_ids ! b ! j))
       (filter (\<lambda>j. input_ids ! b ! j \<noteq> time_series_token_index cfg) [0..<length (input_ids ! b)])"

text \<open>
  The time-series slots of row \<open>b\<close> in words: the fused columns that receive no such token,
  without the first \<open>nb_time_series_pad\<close> of them; and their number over the batch.
\<close>

definition time_series_slots :: "mists_config \<Rightarrow> nat \<Rightarrow> int list list \<Rightarrow> nat \<Rightarrow> nat list" where
  "time_series_slots cfg P input_ids b =
     drop (nat (nb_time_series_pad cfg P input_ids ! b))
       (filter (\<lambda>q. q \<notin> set (text_columns cfg P input_ids b))
          [0..<nat (max_embed_dim cfg P input_ids)])"

definition time_series_slot_count :: "mists_config \<Rightarrow> nat \<Rightarrow> int list list \<Rightarrow> nat" where
  "time_series_slot_count cfg P input_ids =
     sum_list (map (\<lambda>b. length (time_series_slots cfg P input_ids b)) [0..<length input_ids])"

text \<open>
  The running sum of slots up to and including column \<open>j\<close> of a row: a placeholder counts
  \<open>P\<close> slots, every other token one.
\<close>

definition running_slots :: "mists_config \<Rightarrow> nat \<Rightarrow> int list \<Rightarrow> nat \<Rightarrow> int" where
  "running_slots cfg P row j =
     (\<Sum>k\<le>j. if row ! k = time_series_token_index cfg then int P else 1)"

text \<open>Number of nonzero entries of a mask row up to and including column \<open>q\<close>.\<close>

definition nonzero_upto :: "int list \<Rightarrow> nat \<Rightarrow> nat" where
  "nonzero_upto row q = length (filter (\<lambda>m. m \<noteq> 0) (take (Suc q) row))"

definition is_mask :: "int list list \<Rightarrow> bool" where
  "is_mask t \<longleftrightarrow> list_all (list_all (\<lambda>m. m = 0 \<or> m = 1)) t"

text \<open>
  The fused length in words: the largest, over the rows, of the number of placeholders
  of the row times \<open>P - 1\<close>, plus the original sequence length.
\<close>

definition claimed_fused_length :: "mists_config \<Rightarrow> nat \<Rightarrow> int list list \<Rightarrow> int" where
  "claimed_fused_length cfg P input_ids =
     Max ((\<lambda>row. int (placeholder_count cfg row) * (int P - 1)) ` set input_ids)
       + int (shape1 input_ids)"


text \<open>Auxiliary notions for the proofs.\<close>

text \<open>A write \<open>((b, i), v)\<close> lands on place \<open>(b, q)\<close> of a tensor with rows of length \<open>M\<close>.\<close>

definition hits :: "nat \<Rightarrow> nat \<Rightarrow> nat \<Rightarrow> (nat \<times> int) \<times> 'a \<Rightarrow> bool" where
  "hits M b q w \<longleftrightarrow> fst (fst w) = b \<and> norm_index M (snd (fst w)) = q"

text \<open>
  Every token of the batch takes at least one fused column: each time-series instance has
  at least one patch, or the batch has no placeholder at all.
\<close>

definition positive_slots :: "mists_config \<Rightarrow> nat \<Rightarrow> int list list \<Rightarrow> bool" where
  "positive_slots cfg P input_ids \<longleftrightarrow> 1 \<le> P \<or> total_placeholders cfg input_ids = 0"

text \<open>The largest number of placeholders in a row of the batch.\<close>

definition max_placeholders :: "mists_config \<Rightarrow> int list list \<Rightarrow> nat" where
  "max_placeholders cfg input_ids = Max (placeholder_count cfg ` set input_ids)"

section \<open>Basic facts\<close>

lemma bind_err_Inr [simp]: "bind_err (Inr x) f = f x"
  by (simp add: bind_err_def)

lemma bind_err_Inl [simp]: "bind_err (Inl e) f = Inl e"
  by (simp add: bind_err_def)

lemma bind_err_eq_Inr: "bind_err m f = Inr y \<longleftrightarrow> (\<exists>x. m = Inr x \<and> f x = Inr y)"
  by (cases m) simp_all

lemma length_cumsum_from [simp]: "length (cumsum_from acc xs) = length xs"
  by (induction xs arbitrary: acc) simp_all

lemma length_cumsum [simp]: "length (cumsum xs) = length xs"
  by (simp add: cumsum_def)

lemma nth_cumsum_from:
  "k < length xs \<Longrightarrow> cumsum_from acc xs ! k = acc + sum_list (take (Suc k) xs)"
proof (induction xs arbitrary: acc k)
  case Nil
  then show ?case by simp
next
  case (Cons x xs)
  then show ?case by (cases k) simp_all
qed

lemma nth_cumsum: "k < length xs \<Longrightarrow> cumsum xs ! k = sum_list (take (Suc k) xs)"
  by (simp add: cumsum_def nth_cumsum_from)

lemma wrap64_add_left: "wrap64 (wrap64 a + b) = wrap64 (a + b)"
proof -
  have 1: "wrap64 a + b + 2 ^ 63 = (a + 2 ^ 63) mod 2 ^ 64 + b"
    by (simp add: wrap64_def)
  have "wrap64 (wrap64 a + b) = (wrap64 a + b + 2 ^ 63) mod 2 ^ 64 - 2 ^ 63"
    by (simp only: wrap64_def)
  also have "\<dots> = ((a + 2 ^ 63) mod 2 ^ 64 + b) mod 2 ^ 64 - 2 ^ 63"
    by (simp only: 1)
  also have "\<dots> = (a + 2 ^ 63 + b) mod 2 ^ 64 - 2 ^ 63"
    by (simp only: mod_add_left_eq)
  also have "a + 2 ^ 63 + b = a + b + 2 ^ 63"
    by (simp only: add.assoc add.commute)
  finally show ?thesis by (simp only: wrap64_def)
qed

lemma wrap64_id: "- (2 ^ 63) \<le> x \<Longrightarrow> x < 2 ^ 63 \<Longrightarrow> wrap64 x = x"
  by (simp add: wrap64_def)

lemma length_cumsum64_from [simp]: "length (cumsum64_from acc xs) = length xs"
  by (induction xs arbitrary: acc) simp_all

lemma length_cumsum64 [simp]: "length (cumsum64 xs) = length xs"
  by (simp add: cumsum64_def)

lemma nth_cumsum64_from:
  "k < length xs \<Longrightarrow> cumsum64_from acc xs ! k = wrap64 (acc + sum_list (take (Suc k) xs))"
proof (induction xs arbitrary: acc k)
  case Nil
  then show ?case by simp
next
  case (Cons x xs)
  show ?case
  proof (cases k)
    case 0
    then show ?thesis by simp
  next
    case (Suc k')
    with Cons.prems have "k' < length xs" by simp
    from Cons.IH[OF this, of "wrap64 (acc + x)"] Suc show ?thesis
      by (simp add: wrap64_add_left add.assoc)
  qed
qed

lemma nth_cumsum64: "k < length xs \<Longrightarrow> cumsum64 xs ! k = wrap64 (sum_list (take (Suc k) xs))"
  by (simp add: cumsum64_def nth_cumsum64_from)

lemma sum_list_indicator:
  "sum_list (map (\<lambda>r. if p r then 1 else 0) xs) = int (length (filter p xs))"
  by (induction xs) simp_all

lemma left_padding_iff:
  "left_padding cfg input_ids \<longleftrightarrow> (\<forall>row\<in>set input_ids. last row \<noteq> pad_token_id cfg)"
  by (simp add: left_padding_def sum_list_indicator filter_empty_conv)

section \<open>Facts about the tensor primitives and the destinations\<close>

lemma set_torch_where:
  "set (torch_where c t) = {(b, j). b < length t \<and> j < length (t ! b) \<and> c (t ! b ! j)}"
  by (auto simp: torch_where_def)

lemma distinct_concat_rows:
  "distinct (concat (map (\<lambda>b. map (Pair b) (filter (g b) [0..<h b])) [0..<n]))"
  by (induction n) (auto simp: distinct_map inj_on_def)

lemma distinct_torch_where: "distinct (torch_where c t)"
  unfolding torch_where_def by (rule distinct_concat_rows)

lemma norm_index_less: "index_ok M i \<Longrightarrow> norm_index M i < M"
  by (auto simp: index_ok_def norm_index_def)

lemma has_shape_nth: "has_shape B L t \<Longrightarrow> b < B \<Longrightarrow> length (t ! b) = L"
  by (auto simp: has_shape_def list_all_length)

lemma has_shape_length: "has_shape B L t \<Longrightarrow> length t = B"
  by (simp add: has_shape_def)

lemma has_shape_replicate [simp]: "has_shape B M (replicate B (replicate M v))"
  by (simp add: has_shape_def list_all_length)

lemma has_shape_put_one:
  assumes "has_shape B M t"
  shows "has_shape B M (put_one w t)"
proof -
  obtain b i v where w: "w = ((b, i), v)" by (metis surj_pair)
  show ?thesis
  proof (cases "b < length t")
    case True
    then show ?thesis
      using assms by (auto simp: w put_one_def has_shape_def list_all_length nth_list_update)
  next
    case False
    then have "t[b := (t ! b)[norm_index (length (t ! b)) i := v]] = t"
      by (simp add: list_update_beyond)
    then show ?thesis using assms by (simp add: w put_one_def)
  qed
qed

lemma has_shape_fold_put_one: "has_shape B M t \<Longrightarrow> has_shape B M (fold put_one ws t)"
  by (induction ws arbitrary: t) (simp_all add: has_shape_put_one)

lemma put_one_nth:
  assumes "has_shape B M t" "fst (fst w) < B" "index_ok M (snd (fst w))" "b < B" "q < M"
  shows "put_one w t ! b ! q = (if hits M b q w then snd w else t ! b ! q)"
proof -
  obtain b' i v where w: "w = ((b', i), v)" by (metis surj_pair)
  have len: "length (t ! b') = M" "length t = B"
    using assms by (auto simp: w has_shape_nth has_shape_length)
  have "norm_index M i < M" using assms by (simp add: w norm_index_less)
  then show ?thesis
    using assms len by (auto simp: w put_one_def hits_def nth_list_update)
qed

lemma fold_put_one_nth:
  assumes "has_shape B M t" "\<forall>w\<in>set ws. fst (fst w) < B \<and> index_ok M (snd (fst w))"
    "b < B" "q < M"
  shows "fold put_one ws t ! b ! q =
           (if filter (hits M b q) ws = [] then t ! b ! q
            else snd (last (filter (hits M b q) ws)))"
  using assms(2)
proof (induction ws rule: rev_induct)
  case Nil
  then show ?case by simp
next
  case (snoc w ws)
  have sh: "has_shape B M (fold put_one ws t)"
    by (rule has_shape_fold_put_one) (rule assms(1))
  have w: "fst (fst w) < B" "index_ok M (snd (fst w))" using snoc.prems by auto
  have IH: "fold put_one ws t ! b ! q =
           (if filter (hits M b q) ws = [] then t ! b ! q
            else snd (last (filter (hits M b q) ws)))"
    using snoc by auto
  have "fold put_one (ws @ [w]) t ! b ! q = put_one w (fold put_one ws t) ! b ! q"
    by simp
  also have "\<dots> = (if hits M b q w then snd w else fold put_one ws t ! b ! q)"
    by (rule put_one_nth[OF sh w assms(3,4)])
  finally show ?case
    by (simp add: IH)
qed

lemma index_put_Inr:
  assumes "has_shape B M t" "\<forall>w\<in>set idx. fst w < B \<and> index_ok M (snd w)" "length vals = length idx"
  shows "index_put t idx vals = Inr (fold put_one (zip idx vals) t)"
proof -
  have "list_all (\<lambda>(b, i). b < length t \<and> index_ok (length (t ! b)) i) idx"
    using assms(1,2) by (auto simp: list_all_iff has_shape_nth has_shape_length)
  then show ?thesis using assms(3) by (simp add: index_put_def)
qed

lemma index_put_InrD:
  assumes "index_put t idx vals = Inr r" "has_shape B M t"
  shows "(\<forall>w\<in>set idx. fst w < B \<and> index_ok M (snd w)) \<and> length vals = length idx
         \<and> r = fold put_one (zip idx vals) t"
proof -
  from assms(1) have ok: "list_all (\<lambda>(b, i). b < length t \<and> index_ok (length (t ! b)) i) idx"
    and len: "length vals = length idx" and r: "r = fold put_one (zip idx vals) t"
    by (auto simp: index_put_def split: if_splits)
  have "\<forall>w\<in>set idx. fst w < B \<and> index_ok M (snd w)"
  proof
    fix w assume "w \<in> set idx"
    with ok have "fst w < length t \<and> index_ok (length (t ! fst w)) (snd w)"
      by (auto simp: list_all_iff)
    then show "fst w < B \<and> index_ok M (snd w)"
      using assms(2) by (auto simp: has_shape_nth has_shape_length)
  qed
  with len r show ?thesis by simp
qed

lemma index_put_shape:
  assumes "index_put t idx vals = Inr r" "has_shape B M t"
  shows "has_shape B M r"
  using index_put_InrD[OF assms] assms(2) by (simp add: has_shape_fold_put_one)

lemma zip_writes_ok:
  assumes "\<forall>w\<in>set idx. fst w < B \<and> index_ok M (snd w)"
  shows "\<forall>w\<in>set (zip idx vals). fst (fst w) < B \<and> index_ok M (snd (fst w))"
proof
  fix w assume "w \<in> set (zip idx vals)"
  then have "fst w \<in> set idx" by (metis prod.collapse set_zip_leftD)
  with assms show "fst (fst w) < B \<and> index_ok M (snd (fst w))" by blast
qed

lemma index_put_nth:
  assumes "index_put t idx vals = Inr r" "has_shape B M t" "b < B" "q < M"
  shows "r ! b ! q = (if filter (hits M b q) (zip idx vals) = [] then t ! b ! q
                      else snd (last (filter (hits M b q) (zip idx vals))))"
proof -
  note D = index_put_InrD[OF assms(1,2)]
  from D have r: "r = fold put_one (zip idx vals) t" by simp
  show ?thesis
    unfolding r
    by (rule fold_put_one_nth[OF assms(2) zip_writes_ok assms(3,4)]) (use D in simp)
qed

lemma filter_hits_empty:
  assumes "length vals = length idx"
  shows "filter (hits M b q) (zip idx vals) = [] \<longleftrightarrow>
         (\<forall>w\<in>set idx. \<not> (fst w = b \<and> norm_index M (snd w) = q))"
proof -
  have eq: "set (map fst (zip idx vals)) = set idx" using assms by simp
  show ?thesis
  proof
    assume e: "filter (hits M b q) (zip idx vals) = []"
    show "\<forall>w\<in>set idx. \<not> (fst w = b \<and> norm_index M (snd w) = q)"
    proof
      fix w assume "w \<in> set idx"
      with eq have "w \<in> fst ` set (zip idx vals)" by simp
      then obtain x where x: "x \<in> set (zip idx vals)" "fst x = w" by blast
      with e have "\<not> hits M b q x" by (simp add: filter_empty_conv)
      with x(2) show "\<not> (fst w = b \<and> norm_index M (snd w) = q)" by (simp add: hits_def)
    qed
  next
    assume a: "\<forall>w\<in>set idx. \<not> (fst w = b \<and> norm_index M (snd w) = q)"
    have "\<not> hits M b q x" if "x \<in> set (zip idx vals)" for x
    proof -
      from that have "fst x \<in> set idx" by (metis prod.collapse set_zip_leftD)
      with a show ?thesis by (simp add: hits_def)
    qed
    then show "filter (hits M b q) (zip idx vals) = []" by (simp add: filter_empty_conv)
  qed
qed

lemma index_put_nth_unwritten:
  assumes "index_put t idx vals = Inr r" "has_shape B M t" "b < B" "q < M"
    "\<forall>w\<in>set idx. \<not> (fst w = b \<and> norm_index M (snd w) = q)"
  shows "r ! b ! q = t ! b ! q"
proof -
  have "length vals = length idx" using index_put_InrD[OF assms(1,2)] by simp
  then have "filter (hits M b q) (zip idx vals) = []"
    using assms(5) by (simp add: filter_hits_empty)
  then show ?thesis by (simp add: index_put_nth[OF assms(1-4)])
qed

lemma index_put_nth_written:
  assumes "index_put t idx vals = Inr r" "has_shape B M t"
    "distinct (map (\<lambda>w. (fst w, norm_index M (snd w))) idx)" "k < length idx"
  shows "r ! fst (idx ! k) ! norm_index M (snd (idx ! k)) = vals ! k"
proof -
  note D = index_put_InrD[OF assms(1,2)]
  define b where "b = fst (idx ! k)"
  define q where "q = norm_index M (snd (idx ! k))"
  have len: "length vals = length idx" using D by simp
  have b: "b < B" and q: "q < M"
    using D assms(4) by (auto simp: b_def q_def norm_index_less)
  let ?fs = "filter (hits M b q) (zip idx vals)"
  have mem: "(idx ! k, vals ! k) \<in> set ?fs"
    using assms(4) len by (auto simp: hits_def b_def q_def in_set_zip)
  then have ne: "?fs \<noteq> []" by (metis empty_iff list.set(1))
  then have "last ?fs \<in> set ?fs" by (rule last_in_set)
  then obtain k' where k': "k' < length idx" "last ?fs = (idx ! k', vals ! k')"
    and h: "hits M b q (idx ! k', vals ! k')"
    using len by (auto simp: in_set_zip)
  have "map (\<lambda>w. (fst w, norm_index M (snd w))) idx ! k' = map (\<lambda>w. (fst w, norm_index M (snd w))) idx ! k"
    using h k'(1) assms(4) by (simp add: hits_def b_def q_def)
  then have "k' = k"
    using assms(3,4) k'(1) by (simp add: nth_eq_iff_index_eq del: nth_map)
  then have "snd (last ?fs) = vals ! k" using k'(2) by simp
  then show ?thesis
    using index_put_nth[OF assms(1,2) b q] ne by (simp add: b_def q_def)
qed

lemma index_put_entries:
  assumes "index_put t idx vals = Inr r" "has_shape B M t" "b < B" "q < M"
  shows "r ! b ! q = t ! b ! q \<or> r ! b ! q \<in> set vals"
proof (cases "filter (hits M b q) (zip idx vals) = []")
  case True
  then show ?thesis by (simp add: index_put_nth[OF assms])
next
  case False
  then have "last (filter (hits M b q) (zip idx vals)) \<in> set (zip idx vals)"
    using last_in_set by fastforce
  then have "snd (last (filter (hits M b q) (zip idx vals))) \<in> set vals"
    by (metis set_zip_rightD prod.collapse)
  then show ?thesis using False by (simp add: index_put_nth[OF assms])
qed

lemma index_fill_nth:
  assumes "index_fill t idx v = Inr r" "has_shape B M t" "b < B" "q < M"
  shows "r ! b ! q = (if \<exists>w\<in>set idx. fst w = b \<and> norm_index M (snd w) = q then v else t ! b ! q)"
proof -
  from assms(1) have p: "index_put t idx (replicate (length idx) v) = Inr r"
    by (simp add: index_fill_def)
  show ?thesis
  proof (cases "\<exists>w\<in>set idx. fst w = b \<and> norm_index M (snd w) = q")
    case True
    then have ne: "filter (hits M b q) (zip idx (replicate (length idx) v)) \<noteq> []"
      by (simp add: filter_hits_empty)
    from index_put_entries[OF p assms(2-4)] index_put_nth[OF p assms(2-4)] ne
    have "r ! b ! q = snd (last (filter (hits M b q) (zip idx (replicate (length idx) v))))"
      by simp
    moreover have "last (filter (hits M b q) (zip idx (replicate (length idx) v)))
        \<in> set (zip idx (replicate (length idx) v))"
      using ne last_in_set by fastforce
    then have "snd (last (filter (hits M b q) (zip idx (replicate (length idx) v)))) = v"
      by (metis set_zip_rightD prod.collapse in_set_replicate)
    ultimately show ?thesis using True by simp
  next
    case False
    then show ?thesis using index_put_nth_unwritten[OF p assms(2-4)] by auto
  qed
qed

lemma index_fill_shape:
  assumes "index_fill t idx v = Inr r" "has_shape B M t"
  shows "has_shape B M r"
  using assms index_put_shape by (fastforce simp: index_fill_def)

lemma index_fill_Inr:
  assumes "has_shape B M t" "\<forall>w\<in>set idx. fst w < B \<and> index_ok M (snd w)"
  shows "\<exists>r. index_fill t idx v = Inr r"
  using index_put_Inr[OF assms, of "replicate (length idx) v"] by (simp add: index_fill_def)

lemma index_get_Inr:
  assumes "has_shape B L t" "\<forall>w\<in>set idx. fst w < B \<and> snd w < L"
  shows "index_get t idx = Inr (map (\<lambda>(b, j). t ! b ! j) idx)"
proof -
  have "list_all (\<lambda>(b, j). b < length t \<and> j < length (t ! b)) idx"
    using assms by (auto simp: list_all_iff has_shape_nth has_shape_length)
  then show ?thesis by (simp add: index_get_def)
qed

lemma index_get_InrD:
  assumes "index_get t idx = Inr vs"
  shows "vs = map (\<lambda>(b, j). t ! b ! j) idx"
  using assms by (auto simp: index_get_def split: if_splits)

lemma masked_put_nth:
  assumes "masked_put t sel src = Inr r" "b < length t" "q < length (t ! b)"
  shows "r ! b ! q = (if sel ! b ! q
                      then src ! (count_true2 (take b sel) + count_true (take q (sel ! b)))
                      else t ! b ! q)"
  using assms by (auto simp: masked_put_def split: if_splits)

lemma masked_put_shape:
  assumes "masked_put t sel src = Inr r" "has_shape B M t"
  shows "has_shape B M r"
  using assms by (auto simp: masked_put_def has_shape_def list_all_length split: if_splits)

lemma sum_list_take_Suc:
  "j < length xs \<Longrightarrow> sum_list (take (Suc j) xs) = (\<Sum>k\<le>j. xs ! k)"
proof (induction j)
  case 0
  then show ?case by (cases xs) simp_all
next
  case (Suc j)
  then have IH: "sum_list (take (Suc j) xs) = (\<Sum>k\<le>j. xs ! k)" by simp
  have "take (Suc (Suc j)) xs = take (Suc j) xs @ [xs ! Suc j]"
    using Suc.prems by (rule take_Suc_conv_app_nth)
  then have "sum_list (take (Suc (Suc j)) xs) = sum_list (take (Suc j) xs) + xs ! Suc j"
    by simp
  with IH show ?case by simp
qed

lemma natural_positions_nth:
  assumes "b < length input_ids" "j < length (input_ids ! b)"
  shows "natural_positions cfg P input_ids ! b ! j = running_slots cfg P (input_ids ! b) j - 1"
proof -
  let ?f = "\<lambda>t. of_bool (t = time_series_token_index cfg) * (int P - 1) + 1"
  have "natural_positions cfg P input_ids ! b ! j
        = sum_list (take (Suc j) (map ?f (input_ids ! b))) - 1"
    using assms
    by (simp add: natural_positions_def special_time_series_token_mask_def nth_cumsum o_def)
  also have "sum_list (take (Suc j) (map ?f (input_ids ! b))) = (\<Sum>k\<le>j. map ?f (input_ids ! b) ! k)"
    using assms by (simp add: sum_list_take_Suc)
  also have "\<dots> = running_slots cfg P (input_ids ! b) j"
    unfolding running_slots_def using assms by (intro sum.cong) auto
  finally show ?thesis .
qed

lemma length_natural_positions [simp]:
  "length (natural_positions cfg P input_ids) = length input_ids"
  by (simp add: natural_positions_def special_time_series_token_mask_def)

lemma length_natural_positions_nth [simp]:
  "b < length input_ids \<Longrightarrow> length (natural_positions cfg P input_ids ! b) = length (input_ids ! b)"
  by (simp add: natural_positions_def special_time_series_token_mask_def)

lemma length_nb_time_series_pad [simp]:
  "length (nb_time_series_pad cfg P input_ids) = length input_ids"
  by (simp add: nb_time_series_pad_def)

lemma sum_list_slots:
  "sum_list (map (\<lambda>t. if t = time_series_token_index cfg then int P else 1) row)
     = int (length row) + int (placeholder_count cfg row) * (int P - 1)"
  by (induction row) (simp_all add: placeholder_count_def algebra_simps)

lemma running_slots_last:
  assumes "row \<noteq> []"
  shows "running_slots cfg P row (length row - 1)
           = int (length row) + int (placeholder_count cfg row) * (int P - 1)"
proof -
  let ?f = "\<lambda>t. if t = time_series_token_index cfg then int P else 1"
  have s: "{..length row - 1} = {0..<length row}" using assms by (cases row) auto
  have "sum_list (map ?f row) = (\<Sum>i = 0..<length (map ?f row). map ?f row ! i)"
    by (rule sum_list_sum_nth)
  also have "\<dots> = (\<Sum>i = 0..<length row. ?f (row ! i))"
    by (intro sum.cong) simp_all
  also have "\<dots> = running_slots cfg P row (length row - 1)"
    unfolding running_slots_def s ..
  finally have "running_slots cfg P row (length row - 1) = sum_list (map ?f row)" by simp
  then show ?thesis by (simp only: sum_list_slots)
qed

lemma placeholder_count_zero:
  "total_placeholders cfg input_ids = 0 \<Longrightarrow> row \<in> set input_ids \<Longrightarrow> placeholder_count cfg row = 0"
  by (auto simp: total_placeholders_def)

lemma positive_slots_term:
  assumes "positive_slots cfg P input_ids" "b < length input_ids" "k < length (input_ids ! b)"
  shows "1 \<le> (if input_ids ! b ! k = time_series_token_index cfg then int P else 1)"
proof (cases "1 \<le> P")
  case True
  then show ?thesis by simp
next
  case False
  with assms(1) have "total_placeholders cfg input_ids = 0" by (simp add: positive_slots_def)
  with assms(2) have "placeholder_count cfg (input_ids ! b) = 0"
    by (simp add: placeholder_count_zero)
  then have "input_ids ! b ! k \<noteq> time_series_token_index cfg"
    using assms(3) by (auto simp: placeholder_count_def filter_empty_conv)
  then show ?thesis by simp
qed

lemma running_slots_Suc:
  "running_slots cfg P row (Suc j)
     = running_slots cfg P row j + (if row ! Suc j = time_series_token_index cfg then int P else 1)"
  by (simp add: running_slots_def)

lemma running_slots_mono:
  assumes "positive_slots cfg P input_ids" "b < length input_ids" "j' < length (input_ids ! b)"
    "j < j'"
  shows "running_slots cfg P (input_ids ! b) j < running_slots cfg P (input_ids ! b) j'"
  using assms(4,3)
proof (induction j')
  case 0
  then show ?case by simp
next
  case (Suc j')
  have step: "running_slots cfg P (input_ids ! b) j' < running_slots cfg P (input_ids ! b) (Suc j')"
    using positive_slots_term[OF assms(1,2) Suc.prems(2)] by (simp add: running_slots_Suc)
  show ?case
  proof (cases "j = j'")
    case True
    with step show ?thesis by simp
  next
    case False
    with Suc have "running_slots cfg P (input_ids ! b) j < running_slots cfg P (input_ids ! b) j'"
      by simp
    with step show ?thesis by simp
  qed
qed

lemma running_slots_pos:
  assumes "positive_slots cfg P input_ids" "b < length input_ids" "j < length (input_ids ! b)"
  shows "1 \<le> running_slots cfg P (input_ids ! b) j"
proof (cases j)
  case 0
  have "0 < length (input_ids ! b)" using assms(3) by (cases "input_ids ! b") simp_all
  from positive_slots_term[OF assms(1,2) this] show ?thesis
    unfolding 0 running_slots_def by simp
next
  case (Suc j0)
  have "0 < length (input_ids ! b)" using assms(3) by (cases "input_ids ! b") simp_all
  from positive_slots_term[OF assms(1,2) this]
  have "1 \<le> running_slots cfg P (input_ids ! b) 0"
    unfolding running_slots_def by simp
  moreover have "running_slots cfg P (input_ids ! b) 0 < running_slots cfg P (input_ids ! b) j"
    using running_slots_mono[OF assms(1,2,3), of 0] Suc by simp
  ultimately show ?thesis by simp
qed

lemma running_slots_le_last:
  assumes "positive_slots cfg P input_ids" "b < length input_ids" "j < length (input_ids ! b)"
  shows "running_slots cfg P (input_ids ! b) j
           \<le> running_slots cfg P (input_ids ! b) (length (input_ids ! b) - 1)"
proof (cases "j = length (input_ids ! b) - 1")
  case True
  then show ?thesis by simp
next
  case False
  with assms(3) have "j < length (input_ids ! b) - 1" "length (input_ids ! b) - 1 < length (input_ids ! b)"
    by simp_all
  from running_slots_mono[OF assms(1,2) this(2,1)] show ?thesis by simp
qed

lemma fold_max_eq_Max:
  fixes ns :: "int list"
  assumes "ns \<noteq> []"
  shows "fold max ns (hd ns) = Max (set ns)"
proof -
  from assms obtain a list where ns: "ns = a # list" by (cases ns) auto
  have "Max (set (a # list)) = fold max list a" by (rule Max.set_eq_fold)
  then show ?thesis unfolding ns by simp
qed

lemma shape1_eq: "has_shape B L t \<Longrightarrow> 0 < B \<Longrightarrow> shape1 t = L"
  by (cases t) (auto simp: shape1_def has_shape_def)

lemma hd_length: "has_shape B L t \<Longrightarrow> 0 < B \<Longrightarrow> length (hd t) = L"
  by (cases t) (auto simp: has_shape_def)

lemma num_special_nth:
  "b < length input_ids \<Longrightarrow>
     num_special_time_series_tokens cfg input_ids ! b = int (placeholder_count cfg (input_ids ! b))"
  by (simp add: num_special_time_series_tokens_def special_time_series_token_mask_def
      count_true_def placeholder_count_def filter_map o_def)

lemma num_special_eq:
  "num_special_time_series_tokens cfg input_ids = map (\<lambda>row. int (placeholder_count cfg row)) input_ids"
  by (simp add: num_special_time_series_tokens_def special_time_series_token_mask_def
      count_true_def placeholder_count_def filter_map o_def)

lemma max_embed_dim_eq:
  assumes "has_shape B L input_ids" "0 < B"
  shows "max_embed_dim cfg P input_ids = int (max_placeholders cfg input_ids) * (int P - 1) + int L"
proof -
  have ne: "input_ids \<noteq> []" using assms by (auto simp: has_shape_def)
  then have ne': "num_special_time_series_tokens cfg input_ids \<noteq> []"
    by (simp add: num_special_eq)
  have "Max (set (num_special_time_series_tokens cfg input_ids))
          = Max (int ` (placeholder_count cfg ` set input_ids))"
    by (simp add: num_special_eq image_image)
  also have "\<dots> = int (Max (placeholder_count cfg ` set input_ids))"
    using ne by (intro mono_Max_commute[symmetric]) (auto simp: mono_def)
  finally show ?thesis
    using ne' assms by (simp add: max_embed_dim_def fold_max_eq_Max hd_length max_placeholders_def)
qed

lemma placeholder_count_le_max:
  "b < length input_ids \<Longrightarrow> placeholder_count cfg (input_ids ! b) \<le> max_placeholders cfg input_ids"
  by (simp add: max_placeholders_def)

lemma max_placeholders_zero:
  assumes "total_placeholders cfg input_ids = 0" "input_ids \<noteq> []"
  shows "max_placeholders cfg input_ids = 0"
proof -
  have "Max (placeholder_count cfg ` set input_ids) \<in> placeholder_count cfg ` set input_ids"
    using assms(2) by (intro Max_in) auto
  then show ?thesis
    using assms(1) by (auto simp: max_placeholders_def placeholder_count_zero)
qed

lemma pad_product_nonneg:
  assumes "positive_slots cfg P input_ids" "b < length input_ids"
  shows "0 \<le> (int (max_placeholders cfg input_ids) - int (placeholder_count cfg (input_ids ! b)))
              * (int P - 1)"
proof (cases "1 \<le> P")
  case True
  moreover have "placeholder_count cfg (input_ids ! b) \<le> max_placeholders cfg input_ids"
    using assms(2) by (rule placeholder_count_le_max)
  ultimately show ?thesis by simp
next
  case False
  with assms(1) have z: "total_placeholders cfg input_ids = 0" by (simp add: positive_slots_def)
  have "input_ids \<noteq> []" using assms(2) by auto
  with z have "max_placeholders cfg input_ids = 0" by (rule max_placeholders_zero)
  moreover have "placeholder_count cfg (input_ids ! b) = 0"
    using z assms(2) by (simp add: placeholder_count_zero)
  ultimately show ?thesis by simp
qed

lemma last_natural_positions:
  assumes "has_shape B L input_ids" "0 < L" "b < B"
  shows "last (natural_positions cfg P input_ids ! b)
           = int L + int (placeholder_count cfg (input_ids ! b)) * (int P - 1) - 1"
proof -
  have B: "b < length input_ids" and len: "length (input_ids ! b) = L"
    using assms by (simp_all add: has_shape_length has_shape_nth)
  have ne: "input_ids ! b \<noteq> []" using len assms(2) by auto
  have "length (natural_positions cfg P input_ids ! b) = length (input_ids ! b)"
    using B by simp
  then have "natural_positions cfg P input_ids ! b \<noteq> []"
    using ne by auto
  then have "last (natural_positions cfg P input_ids ! b)
        = natural_positions cfg P input_ids ! b ! (length (input_ids ! b) - 1)"
    using B by (simp add: last_conv_nth)
  also have "\<dots> = running_slots cfg P (input_ids ! b) (length (input_ids ! b) - 1) - 1"
    using B ne by (intro natural_positions_nth) simp_all
  finally show ?thesis using running_slots_last[OF ne, of cfg P] len by simp
qed

lemma nb_time_series_pad_nth:
  assumes "has_shape B L input_ids" "0 < L" "b < B"
  shows "nb_time_series_pad cfg P input_ids ! b
           = (int (max_placeholders cfg input_ids) - int (placeholder_count cfg (input_ids ! b)))
               * (int P - 1)"
proof -
  have B: "b < length input_ids" "0 < B" using assms by (simp_all add: has_shape_length)
  have "nb_time_series_pad cfg P input_ids ! b
          = max_embed_dim cfg P input_ids - 1 - last (natural_positions cfg P input_ids ! b)"
    using B by (simp add: nb_time_series_pad_def)
  then show ?thesis
    by (simp add: max_embed_dim_eq[OF assms(1) B(2)] last_natural_positions[OF assms]
        algebra_simps)
qed

lemma nb_time_series_pad_nonneg:
  assumes "has_shape B L input_ids" "0 < L" "b < B" "positive_slots cfg P input_ids"
  shows "0 \<le> nb_time_series_pad cfg P input_ids ! b"
  using pad_product_nonneg[OF assms(4), of b] assms
  by (simp add: nb_time_series_pad_nth has_shape_length)

lemma new_token_positions_nth:
  assumes "has_shape B L input_ids" "b < B" "j < L"
  shows "new_token_positions cfg P input_ids ! b ! j
           = running_slots cfg P (input_ids ! b) j - 1
             + (if left_padding cfg input_ids then nb_time_series_pad cfg P input_ids ! b else 0)"
proof -
  have B: "b < length input_ids" and len: "length (input_ids ! b) = L"
    using assms by (simp_all add: has_shape_length has_shape_nth)
  show ?thesis
    using B len assms(3)
    by (simp add: new_token_positions_def natural_positions_nth)
qed

lemma length_new_token_positions [simp]:
  "length (new_token_positions cfg P input_ids) = length input_ids"
  by (simp add: new_token_positions_def)

lemma new_token_positions_mono:
  assumes "has_shape B L input_ids" "b < B" "j' < L" "j < j'" "positive_slots cfg P input_ids"
  shows "new_token_positions cfg P input_ids ! b ! j < new_token_positions cfg P input_ids ! b ! j'"
proof -
  have B: "b < length input_ids" and len: "length (input_ids ! b) = L"
    using assms by (simp_all add: has_shape_length has_shape_nth)
  have "running_slots cfg P (input_ids ! b) j < running_slots cfg P (input_ids ! b) j'"
    using assms(3,4) len by (intro running_slots_mono[OF assms(5) B]) simp_all
  then show ?thesis
    using assms by (simp add: new_token_positions_nth)
qed

lemma new_token_positions_range:
  assumes "has_shape B L input_ids" "b < B" "j < L" "positive_slots cfg P input_ids"
  shows "0 \<le> new_token_positions cfg P input_ids ! b ! j"
    and "new_token_positions cfg P input_ids ! b ! j < max_embed_dim cfg P input_ids"
proof -
  have B: "b < length input_ids" "0 < B" and len: "length (input_ids ! b) = L" and L: "0 < L"
    using assms by (simp_all add: has_shape_length has_shape_nth)
  have jl: "j < length (input_ids ! b)" using len assms(3) by simp
  have lo: "1 \<le> running_slots cfg P (input_ids ! b) j"
    by (rule running_slots_pos[OF assms(4) B(1) jl])
  have ne: "input_ids ! b \<noteq> []" using len L by auto
  have hi: "running_slots cfg P (input_ids ! b) j
              \<le> int L + int (placeholder_count cfg (input_ids ! b)) * (int P - 1)"
    using running_slots_le_last[OF assms(4) B(1) jl] running_slots_last[OF ne, of cfg P] len
    by simp
  have pad: "0 \<le> nb_time_series_pad cfg P input_ids ! b"
    by (rule nb_time_series_pad_nonneg[OF assms(1) L assms(2,4)])
  have padv: "nb_time_series_pad cfg P input_ids ! b
           = (int (max_placeholders cfg input_ids) - int (placeholder_count cfg (input_ids ! b)))
               * (int P - 1)"
    by (rule nb_time_series_pad_nth[OF assms(1) L assms(2)])
  have M: "max_embed_dim cfg P input_ids = int (max_placeholders cfg input_ids) * (int P - 1) + int L"
    by (rule max_embed_dim_eq[OF assms(1) B(2)])
  show "0 \<le> new_token_positions cfg P input_ids ! b ! j"
    using lo pad by (simp add: new_token_positions_nth[OF assms(1-3)])
  have "new_token_positions cfg P input_ids ! b ! j
          \<le> running_slots cfg P (input_ids ! b) j - 1 + nb_time_series_pad cfg P input_ids ! b"
    using pad by (simp add: new_token_positions_nth[OF assms(1-3)])
  also have "\<dots> \<le> int L + int (placeholder_count cfg (input_ids ! b)) * (int P - 1) - 1
                     + nb_time_series_pad cfg P input_ids ! b"
    using hi by simp
  also have "\<dots> = max_embed_dim cfg P input_ids - 1"
    unfolding padv M by (simp add: algebra_simps)
  finally show "new_token_positions cfg P input_ids ! b ! j < max_embed_dim cfg P input_ids"
    by simp
qed

section \<open>Facts about the merge\<close>

lemma max_embed_dim_pos:
  assumes "has_shape B L input_ids" "0 < B" "0 < L" "positive_slots cfg P input_ids"
  shows "0 < max_embed_dim cfg P input_ids"
  using new_token_positions_range[OF assms(1,2,3,4)] by linarith

lemma norm_index_nonneg: "0 \<le> i \<Longrightarrow> norm_index M i = nat i"
  by (simp add: norm_index_def)

lemma index_ok_range: "0 \<le> i \<Longrightarrow> i < m \<Longrightarrow> index_ok (nat m) i"
  by (simp add: index_ok_def)

lemma new_token_positions_inj:
  assumes "has_shape B L input_ids" "b < B" "j < L" "j' < L" "positive_slots cfg P input_ids"
    "new_token_positions cfg P input_ids ! b ! j = new_token_positions cfg P input_ids ! b ! j'"
  shows "j = j'"
proof (rule ccontr)
  assume "j \<noteq> j'"
  then consider "j < j'" | "j' < j" by linarith
  then show False
  proof cases
    case 1
    from new_token_positions_mono[OF assms(1,2,4) 1 assms(5)] assms(6) show False by simp
  next
    case 2
    from new_token_positions_mono[OF assms(1,2,3) 2 assms(5)] assms(6) show False by simp
  qed
qed

lemma destinations_ok:
  assumes "has_shape B L input_ids" "positive_slots cfg P input_ids"
    "\<forall>w\<in>set src. fst w < B \<and> snd w < L"
  shows "\<forall>w\<in>set (map (\<lambda>(b, j). (b, new_token_positions cfg P input_ids ! b ! j)) src).
           fst w < B \<and> index_ok (nat (max_embed_dim cfg P input_ids)) (snd w)"
proof
  fix w assume "w \<in> set (map (\<lambda>(b, j). (b, new_token_positions cfg P input_ids ! b ! j)) src)"
  then obtain b j where bj: "(b, j) \<in> set src"
    and w: "w = (b, new_token_positions cfg P input_ids ! b ! j)" by auto
  from assms(3) bj have r: "b < B" "j < L" by auto
  from new_token_positions_range[OF assms(1) r assms(2)]
  show "fst w < B \<and> index_ok (nat (max_embed_dim cfg P input_ids)) (snd w)"
    using r(1) by (simp add: w index_ok_range)
qed

lemma destinations_distinct:
  assumes "has_shape B L input_ids" "positive_slots cfg P input_ids"
    "\<forall>w\<in>set src. fst w < B \<and> snd w < L" "distinct src"
  shows "distinct (map (\<lambda>w. (fst w, norm_index M (snd w)))
           (map (\<lambda>(b, j). (b, new_token_positions cfg P input_ids ! b ! j)) src))"
proof -
  let ?f = "\<lambda>w. (fst w, norm_index M (new_token_positions cfg P input_ids ! fst w ! snd w))"
  have "inj_on ?f (set src)"
  proof (rule inj_onI)
    fix x y assume x: "x \<in> set src" and y: "y \<in> set src" and e: "?f x = ?f y"
    from assms(3) x y have rx: "fst x < B" "snd x < L" and ry: "fst y < B" "snd y < L" by auto
    from e have b: "fst x = fst y" by simp
    have nx: "0 \<le> new_token_positions cfg P input_ids ! fst x ! snd x"
      by (rule new_token_positions_range(1)[OF assms(1) rx assms(2)])
    have ny: "0 \<le> new_token_positions cfg P input_ids ! fst x ! snd y"
      unfolding b by (rule new_token_positions_range(1)[OF assms(1) ry assms(2)])
    from e b nx ny have "new_token_positions cfg P input_ids ! fst x ! snd x
         = new_token_positions cfg P input_ids ! fst x ! snd y"
      by (simp add: norm_index_nonneg)
    from new_token_positions_inj[OF assms(1) rx ry(2) assms(2) this] b
    show "x = y" by (simp add: prod_eq_iff)
  qed
  with assms(4) have "distinct (map ?f src)" by (simp add: distinct_map)
  moreover have "map (\<lambda>w. (fst w, norm_index M (snd w)))
           (map (\<lambda>(b, j). (b, new_token_positions cfg P input_ids ! b ! j)) src) = map ?f src"
    by (simp add: case_prod_beta)
  ultimately show ?thesis by (simp only:)
qed

lemma torch_where_range:
  assumes "has_shape B L t"
  shows "\<forall>w\<in>set (torch_where c t). fst w < B \<and> snd w < L"
  using assms by (auto simp: set_torch_where has_shape_length has_shape_nth)

lemma count_true_drop_from:
  "count_true (map (\<lambda>(t, c). t \<and> c - 1 \<ge> p) (zip row (cumsum_from acc (map of_bool row))))
     = count_true row - nat (p - acc)"
proof (induction row arbitrary: acc)
  case Nil
  then show ?case by (simp add: count_true_def)
next
  case (Cons t row)
  show ?case
  proof (cases t)
    case True
    have "count_true (map (\<lambda>(t, c). t \<and> c - 1 \<ge> p)
            (zip (t # row) (cumsum_from acc (map of_bool (t # row)))))
          = (if p \<le> acc then 1 else 0) + (count_true row - nat (p - (acc + 1)))"
      using Cons.IH[of "acc + 1"] True by (simp add: count_true_def)
    also have "\<dots> = count_true (t # row) - nat (p - acc)"
      using True by (auto simp: count_true_def nat_diff_distrib')
    finally show ?thesis .
  next
    case False
    then show ?thesis using Cons.IH[of acc] by (simp add: count_true_def)
  qed
qed

lemma count_true_drop_leading_slots:
  "count_true (drop_leading_slots row p) = count_true row - nat p"
  using count_true_drop_from[of p row 0] by (simp add: drop_leading_slots_def cumsum_def)

lemma count_true_map_upt: "count_true (map f [0..<n]) = length (filter f [0..<n])"
  by (simp add: count_true_def filter_map o_def)

lemma map_zip_nth:
  assumes "length xs = length ys"
  shows "map f (zip xs ys) = map (\<lambda>i. f (xs ! i, ys ! i)) [0..<length xs]"
  using assms by (intro nth_equalityI) simp_all

lemma in_text_columns:
  assumes "b < length input_ids"
  shows "q \<in> set (text_columns cfg P input_ids b) \<longleftrightarrow>
         (\<exists>w\<in>set (text_to_overwrite cfg P input_ids).
            fst w = b \<and> norm_index (nat (max_embed_dim cfg P input_ids)) (snd w) = q)"
  using assms
  by (auto simp: text_columns_def text_to_overwrite_def non_time_series_indices_def
      set_torch_where)

lemma time_series_to_overwrite_nth:
  assumes "time_series_to_overwrite cfg P input_ids = Inr tso" "b < length input_ids"
  shows "tso ! b = drop_leading_slots
                     (map (\<lambda>q. q \<notin> set (text_columns cfg P input_ids b))
                        [0..<nat (max_embed_dim cfg P input_ids)])
                     (nb_time_series_pad cfg P input_ids ! b)"
proof -
  let ?M = "nat (max_embed_dim cfg P input_ids)"
  let ?B = "length input_ids"
  from assms(1) obtain free where
    free: "index_fill (replicate ?B (replicate ?M True)) (text_to_overwrite cfg P input_ids) False
             = Inr free"
    and tso: "tso = map (\<lambda>(row, p). drop_leading_slots row p)
                      (zip free (nb_time_series_pad cfg P input_ids))"
    by (auto simp: time_series_to_overwrite_def Let_def bind_err_eq_Inr)
  have sh0: "has_shape ?B ?M (replicate ?B (replicate ?M True))" by simp
  have sh: "has_shape ?B ?M free" by (rule index_fill_shape[OF free sh0])
  have "free ! b = map (\<lambda>q. q \<notin> set (text_columns cfg P input_ids b)) [0..<?M]"
  proof (rule nth_equalityI)
    show "length (free ! b) = length (map (\<lambda>q. q \<notin> set (text_columns cfg P input_ids b)) [0..<?M])"
      using sh assms(2) by (simp add: has_shape_nth)
  next
    fix q assume "q < length (free ! b)"
    then have q: "q < ?M" using sh assms(2) by (simp add: has_shape_nth)
    show "free ! b ! q = map (\<lambda>q. q \<notin> set (text_columns cfg P input_ids b)) [0..<?M] ! q"
      using index_fill_nth[OF free sh0 assms(2) q] q assms(2)
      by (simp add: in_text_columns)
  qed
  moreover have "length free = ?B" using sh by (simp add: has_shape_length)
  ultimately show ?thesis
    using assms(2) by (simp add: tso)
qed

lemma time_series_to_overwrite_length:
  assumes "time_series_to_overwrite cfg P input_ids = Inr tso"
  shows "length tso = length input_ids"
proof -
  let ?M = "nat (max_embed_dim cfg P input_ids)"
  let ?B = "length input_ids"
  from assms(1) obtain free where
    free: "index_fill (replicate ?B (replicate ?M True)) (text_to_overwrite cfg P input_ids) False
             = Inr free"
    and tso: "tso = map (\<lambda>(row, p). drop_leading_slots row p)
                      (zip free (nb_time_series_pad cfg P input_ids))"
    by (auto simp: time_series_to_overwrite_def Let_def bind_err_eq_Inr)
  have sh0: "has_shape ?B ?M (replicate ?B (replicate ?M True))" by simp
  have "has_shape ?B ?M free" by (rule index_fill_shape[OF free sh0])
  then show ?thesis by (simp add: tso has_shape_length)
qed

lemma count_true2_nth:
  "count_true2 m = sum_list (map (\<lambda>b. count_true (m ! b)) [0..<length m])"
proof -
  have "map count_true m = map (\<lambda>b. count_true (m ! b)) [0..<length m]"
    by (intro nth_equalityI) simp_all
  then show ?thesis by (simp add: count_true2_def)
qed

lemma count_time_series_to_overwrite:
  assumes "time_series_to_overwrite cfg P input_ids = Inr tso"
  shows "count_true2 tso = time_series_slot_count cfg P input_ids"
proof -
  have "count_true2 tso = sum_list (map (\<lambda>b. count_true (tso ! b)) [0..<length input_ids])"
    using count_true2_nth[of tso] by (simp add: time_series_to_overwrite_length[OF assms])
  also have "\<dots> = sum_list (map (\<lambda>b. length (time_series_slots cfg P input_ids b))
                       [0..<length input_ids])"
  proof (rule arg_cong[where f = sum_list], rule map_cong[OF refl])
    fix b assume "b \<in> set [0..<length input_ids]"
    then have b: "b < length input_ids" by simp
    show "count_true (tso ! b) = length (time_series_slots cfg P input_ids b)"
      by (simp add: time_series_to_overwrite_nth[OF assms b] count_true_drop_leading_slots
          count_true_map_upt time_series_slots_def)
  qed
  finally show ?thesis by (simp add: time_series_slot_count_def)
qed

lemma length_filter_nth:
  "length (filter (\<lambda>j. p (row ! j)) [0..<length row]) = length (filter p row)"
proof -
  have "filter p row = filter p (map (\<lambda>j. row ! j) [0..<length row])"
    by (simp add: map_nth)
  also have "\<dots> = map (\<lambda>j. row ! j) (filter (\<lambda>j. p (row ! j)) [0..<length row])"
    by (simp add: filter_map o_def)
  finally show ?thesis by (metis length_map)
qed

lemma length_non_placeholders:
  "length (filter (\<lambda>j. row ! j \<noteq> time_series_token_index cfg) [0..<length row])
     = length row - placeholder_count cfg row"
proof -
  have "length (filter (\<lambda>t. t = time_series_token_index cfg) row)
        + length (filter (\<lambda>t. t \<noteq> time_series_token_index cfg) row) = length row"
    by (rule sum_length_filter_compl)
  then show ?thesis
    by (simp add: length_filter_nth[where p = "\<lambda>t. t \<noteq> time_series_token_index cfg"]
        placeholder_count_def)
qed

lemma placeholder_count_le: "placeholder_count cfg row \<le> length row"
  by (simp add: placeholder_count_def)

lemma length_filter_not_in:
  assumes "S \<subseteq> {0..<M}"
  shows "length (filter (\<lambda>q. q \<notin> S) [0..<M]) = M - card S"
proof -
  have fin: "finite S" using assms by (rule finite_subset) simp
  have "length (filter (\<lambda>q. q \<notin> S) [0..<M]) = card ({q. q \<notin> S} \<inter> set [0..<M])"
    by (rule distinct_length_filter) simp
  also have "{q. q \<notin> S} \<inter> set [0..<M] = {0..<M} - S" by auto
  also have "card ({0..<M} - S) = card {0..<M} - card S"
    using assms fin by (intro card_Diff_subset) auto
  finally show ?thesis by simp
qed

lemma text_columns_facts:
  assumes "has_shape B L input_ids" "0 < L" "b < B" "positive_slots cfg P input_ids"
  shows "distinct (text_columns cfg P input_ids b)"
    and "set (text_columns cfg P input_ids b) \<subseteq> {0..<nat (max_embed_dim cfg P input_ids)}"
    and "length (text_columns cfg P input_ids b) = L - placeholder_count cfg (input_ids ! b)"
proof -
  let ?M = "nat (max_embed_dim cfg P input_ids)"
  let ?ntp = "new_token_positions cfg P input_ids"
  have Bl: "b < length input_ids" and len: "length (input_ids ! b) = L"
    using assms by (simp_all add: has_shape_length has_shape_nth)
  let ?js = "filter (\<lambda>j. input_ids ! b ! j \<noteq> time_series_token_index cfg) [0..<L]"
  have tc: "text_columns cfg P input_ids b = map (\<lambda>j. norm_index ?M (?ntp ! b ! j)) ?js"
    by (simp add: text_columns_def len)
  have js: "\<And>j. j \<in> set ?js \<Longrightarrow> j < L" by simp
  have nn: "\<And>j. j < L \<Longrightarrow> norm_index ?M (?ntp ! b ! j) = nat (?ntp ! b ! j)"
    using new_token_positions_range(1)[OF assms(1,3) _ assms(4)] by (simp add: norm_index_nonneg)
  have "inj_on (\<lambda>j. norm_index ?M (?ntp ! b ! j)) (set ?js)"
  proof (rule inj_onI)
    fix x y assume x: "x \<in> set ?js" and y: "y \<in> set ?js"
      and e: "norm_index ?M (?ntp ! b ! x) = norm_index ?M (?ntp ! b ! y)"
    from x y have xl: "x < L" and yl: "y < L" by simp_all
    from e have "nat (?ntp ! b ! x) = nat (?ntp ! b ! y)" by (simp add: nn xl yl)
    then have "?ntp ! b ! x = ?ntp ! b ! y"
      using new_token_positions_range(1)[OF assms(1,3) xl assms(4)]
        new_token_positions_range(1)[OF assms(1,3) yl assms(4)] by simp
    then show "x = y" by (rule new_token_positions_inj[OF assms(1,3) xl yl assms(4)])
  qed
  then show "distinct (text_columns cfg P input_ids b)"
    unfolding tc by (simp add: distinct_map)
  show "set (text_columns cfg P input_ids b) \<subseteq> {0..<?M}"
  proof
    fix q assume "q \<in> set (text_columns cfg P input_ids b)"
    then obtain j where j: "j < L" and q: "q = norm_index ?M (?ntp ! b ! j)"
      unfolding tc by auto
    from new_token_positions_range[OF assms(1,3) j assms(4)]
    show "q \<in> {0..<?M}" by (simp add: q nn j)
  qed
  show "length (text_columns cfg P input_ids b) = L - placeholder_count cfg (input_ids ! b)"
    unfolding tc using length_non_placeholders[of "input_ids ! b" cfg] by (simp add: len)
qed

lemma length_time_series_slots:
  assumes "has_shape B L input_ids" "0 < L" "b < B" "positive_slots cfg P input_ids"
  shows "length (time_series_slots cfg P input_ids b) = placeholder_count cfg (input_ids ! b) * P"
proof -
  let ?M = "nat (max_embed_dim cfg P input_ids)"
  let ?c = "placeholder_count cfg (input_ids ! b)"
  let ?cm = "max_placeholders cfg input_ids"
  have Bl: "b < length input_ids" "0 < B" and len: "length (input_ids ! b) = L"
    using assms by (simp_all add: has_shape_length has_shape_nth)
  note tcf = text_columns_facts[OF assms]
  have card: "card (set (text_columns cfg P input_ids b)) = L - ?c"
    using tcf(1,3) by (simp add: distinct_card)
  have free: "length (filter (\<lambda>q. q \<notin> set (text_columns cfg P input_ids b)) [0..<?M])
                = ?M - (L - ?c)"
    using length_filter_not_in[OF tcf(2)] card by simp
  have cl: "?c \<le> L" using placeholder_count_le[of cfg "input_ids ! b"] len by simp
  have M: "max_embed_dim cfg P input_ids = int ?cm * (int P - 1) + int L"
    by (rule max_embed_dim_eq[OF assms(1) Bl(2)])
  have Mpos: "0 < max_embed_dim cfg P input_ids"
    by (rule max_embed_dim_pos[OF assms(1) Bl(2) assms(2,4)])
  have nb: "nb_time_series_pad cfg P input_ids ! b = (int ?cm - int ?c) * (int P - 1)"
    by (rule nb_time_series_pad_nth[OF assms(1,2,3)])
  have nbnn: "0 \<le> nb_time_series_pad cfg P input_ids ! b"
    by (rule nb_time_series_pad_nonneg[OF assms])
  have tl: "L - ?c \<le> ?M"
    using tcf(2) card card_mono[OF _ tcf(2)] by simp
  define F where "F = ?M - (L - ?c)"
  define n where "n = nat (nb_time_series_pad cfg P input_ids ! b)"
  have len_eq: "length (time_series_slots cfg P input_ids b) = F - n"
    by (simp add: time_series_slots_def free F_def n_def)
  have F: "int F = int ?cm * (int P - 1) + int ?c"
    using tl cl Mpos by (simp add: F_def M)
  have n: "int n = (int ?cm - int ?c) * (int P - 1)"
    using nbnn by (simp add: n_def nb)
  have d: "int F - int n = int ?c * int P"
    by (simp add: F n algebra_simps)
  have "0 \<le> int ?c * int P" by simp
  with d have "n \<le> F" by linarith
  then have "int (F - n) = int ?c * int P" using d by simp
  then have "int (length (time_series_slots cfg P input_ids b)) = int (?c * P)"
    by (simp add: len_eq)
  then show ?thesis by (simp only: of_nat_eq_iff)
qed

lemma time_series_slot_count_eq:
  assumes "has_shape B L input_ids" "0 < L" "positive_slots cfg P input_ids"
  shows "time_series_slot_count cfg P input_ids = total_placeholders cfg input_ids * P"
proof -
  have B: "length input_ids = B" using assms(1) by (simp add: has_shape_length)
  have "map (\<lambda>b. length (time_series_slots cfg P input_ids b)) [0..<length input_ids]
          = map (\<lambda>b. placeholder_count cfg (input_ids ! b) * P) [0..<length input_ids]"
    by (rule map_cong[OF refl]) (simp add: B length_time_series_slots[OF assms(1,2) _ assms(3)])
  also have "\<dots> = map (\<lambda>row. placeholder_count cfg row * P) input_ids"
    by (intro nth_equalityI) simp_all
  finally show ?thesis
    by (simp add: time_series_slot_count_def total_placeholders_def sum_list_mult_const o_def
        flip: map_map)
qed

lemma merge_InrD:
  assumes "merge_input_ids_with_time_series_features cfg tsf inputs_embeds input_ids
             attention_mask labels = Inr (fe, fam, fl, pos)"
  defines "P \<equiv> num_time_series_patches tsf"
  defines "B \<equiv> length input_ids"
  defines "M \<equiv> nat (max_embed_dim cfg P input_ids)"
  defines "src \<equiv> non_time_series_indices cfg input_ids"
  defines "dst \<equiv> text_to_overwrite cfg P input_ids"
  shows "\<exists>text_embeds fe1 text_mask fam1 tso fe2.
           input_ids \<noteq> [] \<and> hd input_ids \<noteq> [] \<and> 0 \<le> max_embed_dim cfg P input_ids
         \<and> index_get inputs_embeds src = Inr text_embeds
         \<and> index_put (replicate B (replicate M 0)) dst text_embeds = Inr fe1
         \<and> index_get attention_mask src = Inr text_mask
         \<and> index_put (replicate B (replicate M 0)) dst text_mask = Inr fam1
         \<and> (case labels of None \<Rightarrow> fl = None
             | Some lab \<Rightarrow> \<exists>text_labels l. index_get lab src = Inr text_labels
                 \<and> index_put (replicate B (replicate M (ignore_index cfg))) dst text_labels = Inr l
                 \<and> fl = Some l)
         \<and> time_series_to_overwrite cfg P input_ids = Inr tso
         \<and> count_true2 tso = num_time_series tsf * P
         \<and> masked_put fe1 tso (flat_features tsf) = Inr fe2
         \<and> fam = map (\<lambda>(mrow, trow). map (\<lambda>(m, t). m OR of_bool t) (zip mrow trow)) (zip fam1 tso)
         \<and> pos = map position_ids_row fam
         \<and> index_fill fe2 (indices_to_mask cfg P input_ids) 0 = Inr fe"
  using assms(1)
  unfolding merge_input_ids_with_time_series_features_def Let_def P_def B_def M_def src_def dst_def
  by (auto simp: bind_err_eq_Inr split: if_splits option.splits)

lemma well_shapedD:
  assumes "well_shaped tsf inputs_embeds input_ids attention_mask labels"
  shows "0 < length input_ids" "0 < shape1 input_ids"
    "has_shape (length input_ids) (shape1 input_ids) input_ids"
    "has_shape (length input_ids) (shape1 input_ids) inputs_embeds"
    "has_shape (length input_ids) (shape1 input_ids) attention_mask"
    "\<And>lab. labels = Some lab \<Longrightarrow> has_shape (length input_ids) (shape1 input_ids) lab"
    "length (flat_features tsf) = num_time_series tsf * num_time_series_patches tsf"
  using assms by (auto simp: well_shaped_def Let_def)

lemma index_put_ex:
  assumes "has_shape B M t" "\<forall>w\<in>set idx. fst w < B \<and> index_ok M (snd w)" "length vals = length idx"
  shows "\<exists>r. index_put t idx vals = Inr r"
  using index_put_Inr[OF assms] by blast

lemma time_series_to_overwrite_Inr:
  assumes "has_shape B L input_ids" "0 < B" "0 < L" "positive_slots cfg P input_ids"
  shows "\<exists>tso. time_series_to_overwrite cfg P input_ids = Inr tso"
proof -
  let ?M = "nat (max_embed_dim cfg P input_ids)"
  have sh0: "has_shape B ?M (replicate B (replicate ?M True))" by simp
  have ok: "\<forall>w\<in>set (text_to_overwrite cfg P input_ids). fst w < B \<and> index_ok ?M (snd w)"
    unfolding text_to_overwrite_def non_time_series_indices_def
    by (rule destinations_ok[OF assms(1,4) torch_where_range[OF assms(1)]])
  from index_fill_Inr[OF sh0 ok, of False] obtain free where
    "index_fill (replicate B (replicate ?M True)) (text_to_overwrite cfg P input_ids) False = Inr free"
    by blast
  then show ?thesis
    using assms(1) by (simp add: time_series_to_overwrite_def Let_def has_shape_length)
qed

lemma merge_outcome:
  assumes ws: "well_shaped tsf inputs_embeds input_ids attention_mask labels"
    and ps: "positive_slots cfg (num_time_series_patches tsf) input_ids"
  shows "if time_series_slot_count cfg (num_time_series_patches tsf) input_ids
              = num_time_series tsf * num_time_series_patches tsf
         then \<exists>out. merge_input_ids_with_time_series_features cfg tsf inputs_embeds input_ids
                      attention_mask labels = Inr out
         else merge_input_ids_with_time_series_features cfg tsf inputs_embeds input_ids
                      attention_mask labels = Inl ValueError"
proof -
  define P where "P = num_time_series_patches tsf"
  define B where "B = length input_ids"
  define L where "L = shape1 input_ids"
  define M where "M = nat (max_embed_dim cfg P input_ids)"
  define src where "src = non_time_series_indices cfg input_ids"
  define dst where "dst = text_to_overwrite cfg P input_ids"
  note D = well_shapedD[OF ws, folded B_def L_def P_def]
  note ps' = ps[folded P_def]
  have ne: "input_ids \<noteq> []" using D(1) by (auto simp: B_def)
  have hdne: "hd input_ids \<noteq> []"
    using hd_length[OF D(3) D(1)] D(2) by auto
  have Mpos: "0 < max_embed_dim cfg P input_ids"
    by (rule max_embed_dim_pos[OF D(3) D(1) D(2) ps'])
  have srcr: "\<forall>w\<in>set src. fst w < B \<and> snd w < L"
    unfolding src_def non_time_series_indices_def by (rule torch_where_range[OF D(3)])
  have dstok: "\<forall>w\<in>set dst. fst w < B \<and> index_ok M (snd w)"
    unfolding dst_def M_def text_to_overwrite_def src_def[symmetric]
    by (rule destinations_ok[OF D(3) ps' srcr])
  have ldst: "length dst = length src"
    by (simp add: dst_def text_to_overwrite_def src_def)
  have ge: "index_get inputs_embeds src = Inr (map (\<lambda>(b, j). inputs_embeds ! b ! j) src)"
    by (rule index_get_Inr[OF D(4) srcr])
  have gm: "index_get attention_mask src = Inr (map (\<lambda>(b, j). attention_mask ! b ! j) src)"
    by (rule index_get_Inr[OF D(5) srcr])
  obtain fe1 where fe1: "index_put (replicate B (replicate M 0)) dst
        (map (\<lambda>(b, j). inputs_embeds ! b ! j) src) = Inr fe1"
    using index_put_ex[OF has_shape_replicate dstok] ldst by (metis length_map)
  obtain fam1 where fam1: "index_put (replicate B (replicate M 0)) dst
        (map (\<lambda>(b, j). attention_mask ! b ! j) src) = Inr fam1"
    using index_put_ex[OF has_shape_replicate dstok] ldst by (metis length_map)
  have lab: "\<exists>fl. (case labels of None \<Rightarrow> Inr None
                     | Some lab \<Rightarrow>
                         bind_err (index_get lab src) (\<lambda>text_labels.
                         bind_err (index_put (replicate B (replicate M (ignore_index cfg)))
                                     dst text_labels) (\<lambda>fl. Inr (Some fl)))) = Inr fl"
  proof (cases labels)
    case None
    then show ?thesis by simp
  next
    case (Some lab)
    have "index_get lab src = Inr (map (\<lambda>(b, j). lab ! b ! j) src)"
      by (rule index_get_Inr[OF D(6)[OF Some] srcr])
    moreover obtain l where "index_put (replicate B (replicate M (ignore_index cfg))) dst
        (map (\<lambda>(b, j). lab ! b ! j) src) = Inr l"
      using index_put_ex[OF has_shape_replicate dstok] ldst by (metis length_map)
    ultimately show ?thesis using Some by simp
  qed
  then obtain fl where fl: "(case labels of None \<Rightarrow> Inr None
                     | Some lab \<Rightarrow>
                         bind_err (index_get lab src) (\<lambda>text_labels.
                         bind_err (index_put (replicate B (replicate M (ignore_index cfg)))
                                     dst text_labels) (\<lambda>fl. Inr (Some fl)))) = Inr fl" ..
  obtain tso where tso: "time_series_to_overwrite cfg P input_ids = Inr tso"
    using time_series_to_overwrite_Inr[OF D(3) D(1) D(2) ps'] by blast
  have cnt: "count_true2 tso = time_series_slot_count cfg P input_ids"
    by (rule count_time_series_to_overwrite[OF tso])
  have sh1: "has_shape B M fe1" by (rule index_put_shape[OF fe1 has_shape_replicate])
  show ?thesis
  proof (cases "time_series_slot_count cfg P input_ids = num_time_series tsf * P")
    case True
    then have "count_true2 tso = length (flat_features tsf)" using cnt D(7) by simp
    then obtain fe2 where fe2: "masked_put fe1 tso (flat_features tsf) = Inr fe2"
      by (simp add: masked_put_def)
    have sh2: "has_shape B M fe2" by (rule masked_put_shape[OF fe2 sh1])
    have padok: "\<forall>w\<in>set (indices_to_mask cfg P input_ids). fst w < B \<and> index_ok M (snd w)"
      unfolding indices_to_mask_def M_def
      by (rule destinations_ok[OF D(3) ps' torch_where_range[OF D(3)]])
    from index_fill_Inr[OF sh2 padok] obtain fe3 where
      fe3: "index_fill fe2 (indices_to_mask cfg P input_ids) 0 = Inr fe3" by blast
    have "\<exists>out. merge_input_ids_with_time_series_features cfg tsf inputs_embeds input_ids
                      attention_mask labels = Inr out"
      using ne hdne Mpos True cnt ge gm fe1 fam1 fl tso fe2 fe3
      unfolding merge_input_ids_with_time_series_features_def Let_def
        P_def B_def M_def src_def dst_def
      by simp
    then show ?thesis using True by (simp add: P_def)
  next
    case False
    have "merge_input_ids_with_time_series_features cfg tsf inputs_embeds input_ids
                      attention_mask labels = Inl ValueError"
      using ne hdne Mpos False cnt ge gm fe1 fam1 fl tso
      unfolding merge_input_ids_with_time_series_features_def Let_def
        P_def B_def M_def src_def dst_def
      by simp
    then show ?thesis using False by (simp add: P_def)
  qed
qed

lemma length_drop_leading_slots [simp]: "length (drop_leading_slots row p) = length row"
  by (simp add: drop_leading_slots_def)

lemma length_position_ids_row [simp]: "length (position_ids_row row) = length row"
  by (simp add: position_ids_row_def)

lemma time_series_to_overwrite_shape:
  assumes "time_series_to_overwrite cfg P input_ids = Inr tso"
  shows "has_shape (length input_ids) (nat (max_embed_dim cfg P input_ids)) tso"
  unfolding has_shape_def list_all_length
  using time_series_to_overwrite_nth[OF assms] time_series_to_overwrite_length[OF assms]
  by simp

lemma has_shape_map2:
  assumes "has_shape B M xs" "has_shape B M ys"
  shows "has_shape B M (map (\<lambda>(xrow, yrow). map f (zip xrow yrow)) (zip xs ys))"
  using assms by (auto simp: has_shape_def list_all_length)

lemma has_shape_map_rows:
  assumes "has_shape B M xs" "\<And>row. length (f row) = length row"
  shows "has_shape B M (map f xs)"
  using assms by (auto simp: has_shape_def list_all_length)

lemma merge_shapes:
  assumes "merge_input_ids_with_time_series_features cfg tsf inputs_embeds input_ids
             attention_mask labels = Inr (fe, fam, fl, pos)"
  defines "B \<equiv> length input_ids"
  defines "M \<equiv> nat (max_embed_dim cfg (num_time_series_patches tsf) input_ids)"
  shows "has_shape B M fe" "has_shape B M fam" "has_shape B M pos"
    "\<And>l. fl = Some l \<Longrightarrow> has_shape B M l"
proof -
  from merge_InrD[OF assms(1), folded B_def M_def] obtain text_embeds fe1 text_mask fam1 tso fe2
    where fe1: "index_put (replicate B (replicate M 0))
                  (text_to_overwrite cfg (num_time_series_patches tsf) input_ids) text_embeds = Inr fe1"
      and fam1: "index_put (replicate B (replicate M 0))
                  (text_to_overwrite cfg (num_time_series_patches tsf) input_ids) text_mask = Inr fam1"
      and lab: "(case labels of None \<Rightarrow> fl = None
             | Some lab \<Rightarrow> \<exists>text_labels l.
                 index_get lab (non_time_series_indices cfg input_ids) = Inr text_labels
                 \<and> index_put (replicate B (replicate M (ignore_index cfg)))
                     (text_to_overwrite cfg (num_time_series_patches tsf) input_ids) text_labels = Inr l
                 \<and> fl = Some l)"
      and tso: "time_series_to_overwrite cfg (num_time_series_patches tsf) input_ids = Inr tso"
      and fe2: "masked_put fe1 tso (flat_features tsf) = Inr fe2"
      and fam: "fam = map (\<lambda>(mrow, trow). map (\<lambda>(m, t). m OR of_bool t) (zip mrow trow)) (zip fam1 tso)"
      and pos: "pos = map position_ids_row fam"
      and fe: "index_fill fe2 (indices_to_mask cfg (num_time_series_patches tsf) input_ids) 0 = Inr fe"
    by blast
  have s1: "has_shape B M fe1" by (rule index_put_shape[OF fe1 has_shape_replicate])
  have s2: "has_shape B M fe2" by (rule masked_put_shape[OF fe2 s1])
  show "has_shape B M fe" by (rule index_fill_shape[OF fe s2])
  have m1: "has_shape B M fam1" by (rule index_put_shape[OF fam1 has_shape_replicate])
  have t: "has_shape B M tso"
    unfolding B_def M_def by (rule time_series_to_overwrite_shape[OF tso])
  show fs: "has_shape B M fam" unfolding fam by (rule has_shape_map2[OF m1 t])
  show "has_shape B M pos" unfolding pos by (rule has_shape_map_rows[OF fs]) simp
  show "has_shape B M l" if "fl = Some l" for l
  proof (cases labels)
    case None
    with lab that show ?thesis by simp
  next
    case (Some lab')
    with lab that obtain text_labels where
      "index_put (replicate B (replicate M (ignore_index cfg)))
         (text_to_overwrite cfg (num_time_series_patches tsf) input_ids) text_labels = Inr l"
      by auto
    then show ?thesis by (rule index_put_shape) simp
  qed
qed

lemma claimed_fused_length_eq:
  assumes "has_shape B L input_ids" "0 < B" "positive_slots cfg P input_ids"
  shows "claimed_fused_length cfg P input_ids = max_embed_dim cfg P input_ids"
proof -
  have ne: "input_ids \<noteq> []" using assms by (auto simp: has_shape_def)
  have "Max ((\<lambda>row. int (placeholder_count cfg row) * (int P - 1)) ` set input_ids)
          = int (max_placeholders cfg input_ids) * (int P - 1)"
  proof (cases "1 \<le> P")
    case True
    have "(\<lambda>c. int c * (int P - 1)) (Max (placeholder_count cfg ` set input_ids))
            = Max ((\<lambda>c. int c * (int P - 1)) ` (placeholder_count cfg ` set input_ids))"
      using ne True by (intro mono_Max_commute) (auto simp: mono_def mult_right_mono)
    then show ?thesis by (simp add: max_placeholders_def image_image)
  next
    case False
    with assms(3) have z: "total_placeholders cfg input_ids = 0" by (simp add: positive_slots_def)
    from ne obtain r where r: "r \<in> set input_ids" by (cases input_ids) auto
    from z r have "(\<lambda>row. int (placeholder_count cfg row) * (int P - 1)) ` set input_ids = {0}"
      by (auto simp: placeholder_count_zero image_iff)
    then show ?thesis using max_placeholders_zero[OF z ne] by simp
  qed
  then show ?thesis
    by (simp add: claimed_fused_length_def max_embed_dim_eq[OF assms(1,2)] shape1_eq[OF assms(1,2)])
qed

section \<open>Padding-side detection\<close>

text \<open>
  C2, as the code has it. The batch is treated as left-padded exactly when no row has the
  pad token id in its last column (every row ends in a token that is not the pad token).
  So a batch in which every row ends in the pad id (right padding) is not treated as
  left-padded, and a batch in which no row ends in the pad id is.
\<close>

theorem left_padding_detection:
  "(left_padding cfg input_ids \<longleftrightarrow> (\<forall>row\<in>set input_ids. last row \<noteq> pad_token_id cfg))
   \<and> (input_ids \<noteq> [] \<and> (\<forall>row\<in>set input_ids. last row = pad_token_id cfg)
        \<longrightarrow> \<not> left_padding cfg input_ids)
   \<and> ((\<forall>row\<in>set input_ids. last row \<noteq> pad_token_id cfg) \<longrightarrow> left_padding cfg input_ids)"
proof -
  have "\<not> left_padding cfg input_ids"
    if "input_ids \<noteq> []" and "\<forall>row\<in>set input_ids. last row = pad_token_id cfg"
  proof -
    from that(1) obtain row where "row \<in> set input_ids" by (cases input_ids) auto
    with that(2) show ?thesis by (auto simp: left_padding_iff)
  qed
  then show ?thesis by (auto simp: left_padding_iff)
qed

theorem left_padding_detection_witness:
  "left_padding \<lparr>pad_token_id = 0, time_series_token_index = 9, ignore_index = -100\<rparr> [[0, 5], [0, 6]]
   \<and> \<not> left_padding \<lparr>pad_token_id = 0, time_series_token_index = 9, ignore_index = -100\<rparr> [[5, 0], [6, 0]]"
  using left_padding_detection
          [of "\<lparr>pad_token_id = 0, time_series_token_index = 9, ignore_index = -100\<rparr>" "[[0, 5], [0, 6]]"]
        left_padding_detection
          [of "\<lparr>pad_token_id = 0, time_series_token_index = 9, ignore_index = -100\<rparr>" "[[5, 0], [6, 0]]"]
  by simp

text \<open>
  The statement "left-padded exactly when some row ends in the pad id" fails on the
  one-row batch [[5, pad]]: a row ends in the pad id and the batch is not treated as
  left-padded.
\<close>

theorem left_padding_some_row_counterexample:
  "\<not> (left_padding \<lparr>pad_token_id = 0, time_series_token_index = 9, ignore_index = -100\<rparr> [[5, 0]]
       \<longleftrightarrow> (\<exists>row\<in>set [[5, 0]]. last row = pad_token_id \<lparr>pad_token_id = 0, time_series_token_index = 9, ignore_index = -100\<rparr>))"
  by (simp add: left_padding_def)

section \<open>The input-contract error\<close>

text \<open>
  C1, as the code has it. For every input of the shape contract in which every token takes
  at least one fused column (each time-series instance has at least one patch, or there
  is no placeholder), the merge raises an error exactly when the number of time-series
  slots (the fused places that receive no original non-placeholder token, without the
  first \<open>nb_time_series_pad\<close> of each row) differs from \<open>N_instances * P_patches\<close>; the error
  is then the ValueError of line 189 and no fused output is returned; when the two numbers
  agree the merge returns its fused tensors. The number of slots is the number of
  placeholder tokens of the batch times \<open>P_patches\<close>.
\<close>

theorem merge_raises_iff_slot_mismatch:
  assumes "well_shaped tsf inputs_embeds input_ids attention_mask labels"
    and "positive_slots cfg (num_time_series_patches tsf) input_ids"
  shows "((\<exists>e. merge_input_ids_with_time_series_features cfg tsf inputs_embeds input_ids
                attention_mask labels = Inl e)
          \<longleftrightarrow> time_series_slot_count cfg (num_time_series_patches tsf) input_ids
                \<noteq> num_time_series tsf * num_time_series_patches tsf)
       \<and> (time_series_slot_count cfg (num_time_series_patches tsf) input_ids
                \<noteq> num_time_series tsf * num_time_series_patches tsf
            \<longrightarrow> merge_input_ids_with_time_series_features cfg tsf inputs_embeds input_ids
                  attention_mask labels = Inl ValueError)
       \<and> (time_series_slot_count cfg (num_time_series_patches tsf) input_ids
                = num_time_series tsf * num_time_series_patches tsf
            \<longrightarrow> (\<exists>out. merge_input_ids_with_time_series_features cfg tsf inputs_embeds input_ids
                        attention_mask labels = Inr out))
       \<and> time_series_slot_count cfg (num_time_series_patches tsf) input_ids
            = total_placeholders cfg input_ids * num_time_series_patches tsf"
proof -
  note D = well_shapedD[OF assms(1)]
  have cnt: "time_series_slot_count cfg (num_time_series_patches tsf) input_ids
            = total_placeholders cfg input_ids * num_time_series_patches tsf"
    by (rule time_series_slot_count_eq[OF D(3) D(2) assms(2)])
  show ?thesis
  proof (cases "time_series_slot_count cfg (num_time_series_patches tsf) input_ids
                = num_time_series tsf * num_time_series_patches tsf")
    case True
    with merge_outcome[OF assms] obtain out where
      r: "merge_input_ids_with_time_series_features cfg tsf inputs_embeds input_ids
         attention_mask labels = Inr out" by auto
    then have "\<not> (\<exists>e. merge_input_ids_with_time_series_features cfg tsf inputs_embeds input_ids
         attention_mask labels = Inl e)" by simp
    with True cnt r show ?thesis by blast
  next
    case False
    with merge_outcome[OF assms] have
      "merge_input_ids_with_time_series_features cfg tsf inputs_embeds input_ids
         attention_mask labels = Inl ValueError" by simp
    with False cnt show ?thesis by simp
  qed
qed

theorem merge_raises_iff_slot_mismatch_witness:
  "(\<exists>out. merge_input_ids_with_time_series_features
       \<lparr>pad_token_id = 0, time_series_token_index = 9, ignore_index = -100\<rparr>
       \<lparr>num_time_series = 1, num_time_series_patches = 2, flat_features = [101, 102 :: int]\<rparr>
       [[11, 12, 13]] [[1, 9, 2]] [[1, 1, 1]] None = Inr out)
   \<and> merge_input_ids_with_time_series_features
       \<lparr>pad_token_id = 0, time_series_token_index = 9, ignore_index = -100\<rparr>
       \<lparr>num_time_series = 2, num_time_series_patches = 2, flat_features = [101, 102, 103, 104 :: int]\<rparr>
       [[11, 12, 13]] [[1, 9, 2]] [[1, 1, 1]] None = Inl ValueError"
proof -
  let ?cfg = "\<lparr>pad_token_id = 0, time_series_token_index = 9, ignore_index = -100\<rparr>"
  let ?t1 = "\<lparr>num_time_series = 1, num_time_series_patches = 2, flat_features = [101, 102 :: int]\<rparr>"
  let ?t2 = "\<lparr>num_time_series = 2, num_time_series_patches = 2,
              flat_features = [101, 102, 103, 104 :: int]\<rparr>"
  have w1: "well_shaped ?t1 [[11, 12, 13 :: int]] [[1, 9, 2]] [[1, 1, 1]] None"
    by (simp add: well_shaped_def shape1_def has_shape_def)
  have w2: "well_shaped ?t2 [[11, 12, 13 :: int]] [[1, 9, 2]] [[1, 1, 1]] None"
    by (simp add: well_shaped_def shape1_def has_shape_def)
  have p1: "positive_slots ?cfg (num_time_series_patches ?t1) [[1, 9, 2]]"
    by (simp add: positive_slots_def)
  have p2: "positive_slots ?cfg (num_time_series_patches ?t2) [[1, 9, 2]]"
    by (simp add: positive_slots_def)
  have tp: "total_placeholders ?cfg [[1, 9, 2]] = 1"
    by (simp add: total_placeholders_def placeholder_count_def)
  show ?thesis
    using merge_raises_iff_slot_mismatch[OF w1 p1] merge_raises_iff_slot_mismatch[OF w2 p2] tp
    by simp
qed

text \<open>
  Without the condition on the patches the equivalence fails: for a feature tensor with
  zero patches per instance and the right-padded batch [[9, pad], [1, pad]] the fused
  length is 1, the pad token of row 1 has destination 1, and the write of line 176 fails
  in the runtime before the check of line 188, although the number of slots, 0, equals
  \<open>N_instances * P_patches\<close>.
\<close>

theorem merge_error_without_mismatch_counterexample:
  "merge_input_ids_with_time_series_features
     \<lparr>pad_token_id = 0, time_series_token_index = 9, ignore_index = -100\<rparr>
     \<lparr>num_time_series = 1, num_time_series_patches = 0, flat_features = ([] :: int list)\<rparr>
     [[11, 12], [21, 22]] [[9, 0], [1, 0]] [[1, 0], [1, 0]] None
   = Inl RuntimeFault
   \<and> time_series_slot_count \<lparr>pad_token_id = 0, time_series_token_index = 9, ignore_index = -100\<rparr>
       0 [[9, 0], [1, 0]] = 1 * 0
   \<and> well_shaped
       \<lparr>num_time_series = 1, num_time_series_patches = 0, flat_features = ([] :: int list)\<rparr>
       [[11, 12], [21, 22 :: int]] [[9, 0], [1, 0]] [[1, 0], [1, 0]] None"
proof -
  have 1: "merge_input_ids_with_time_series_features
     \<lparr>pad_token_id = 0, time_series_token_index = 9, ignore_index = -100\<rparr>
     \<lparr>num_time_series = 1, num_time_series_patches = 0, flat_features = ([] :: int list)\<rparr>
     [[11, 12], [21, 22]] [[9, 0], [1, 0]] [[1, 0], [1, 0]] None
   = Inl RuntimeFault"
    by code_simp
  have 2: "time_series_slot_count
       \<lparr>pad_token_id = 0, time_series_token_index = 9, ignore_index = -100\<rparr>
       0 [[9, 0], [1, 0]] = 1 * 0"
    by code_simp
  have 3: "well_shaped
       \<lparr>num_time_series = 1, num_time_series_patches = 0, flat_features = ([] :: int list)\<rparr>
       [[11, 12], [21, 22 :: int]] [[9, 0], [1, 0]] [[1, 0], [1, 0]] None"
    by (simp add: well_shaped_def shape1_def has_shape_def)
  from 1 2 3 show ?thesis by (simp only: simp_thms)
qed

section \<open>The fused sequence length\<close>

text \<open>
  C5, as the code has it. Whenever the merge returns on a rectangular batch, the fused
  embeddings, attention mask, position ids and (when present) labels all have one row per
  batch row and second dimension equal to the original sequence length plus
  \<open>k * (P_patches - 1)\<close>, where \<open>k\<close> is the largest number of placeholders in a row
  (line 138). When every token takes at least one fused column (each time-series instance
  has at least one patch, or there is no placeholder) this is the largest over the rows of
  (placeholders in the row times (\<open>P_patches\<close> - 1)) plus the original sequence length.
\<close>

theorem fused_sequence_length:
  assumes "merge_input_ids_with_time_series_features cfg tsf inputs_embeds input_ids
             attention_mask labels = Inr (fe, fam, fl, pos)"
    and "has_shape (length input_ids) (shape1 input_ids) input_ids"
  shows "has_shape (length input_ids)
           (nat (int (shape1 input_ids)
                 + int (max_placeholders cfg input_ids) * (int (num_time_series_patches tsf) - 1))) fe
       \<and> has_shape (length input_ids)
           (nat (int (shape1 input_ids)
                 + int (max_placeholders cfg input_ids) * (int (num_time_series_patches tsf) - 1))) fam
       \<and> has_shape (length input_ids)
           (nat (int (shape1 input_ids)
                 + int (max_placeholders cfg input_ids) * (int (num_time_series_patches tsf) - 1))) pos
       \<and> (\<forall>l. fl = Some l \<longrightarrow> has_shape (length input_ids)
           (nat (int (shape1 input_ids)
                 + int (max_placeholders cfg input_ids) * (int (num_time_series_patches tsf) - 1))) l)
       \<and> (positive_slots cfg (num_time_series_patches tsf) input_ids \<longrightarrow>
            claimed_fused_length cfg (num_time_series_patches tsf) input_ids
              = int (shape1 input_ids)
                + int (max_placeholders cfg input_ids) * (int (num_time_series_patches tsf) - 1))"
proof -
  have ne: "input_ids \<noteq> []" using merge_InrD[OF assms(1)] by blast
  then have B: "0 < length input_ids" by simp
  have m: "max_embed_dim cfg (num_time_series_patches tsf) input_ids
             = int (shape1 input_ids)
               + int (max_placeholders cfg input_ids) * (int (num_time_series_patches tsf) - 1)"
    using max_embed_dim_eq[OF assms(2) B, of cfg "num_time_series_patches tsf"] by simp
  have c: "claimed_fused_length cfg (num_time_series_patches tsf) input_ids
             = max_embed_dim cfg (num_time_series_patches tsf) input_ids"
    if "positive_slots cfg (num_time_series_patches tsf) input_ids"
    by (rule claimed_fused_length_eq[OF assms(2) B that])
  show ?thesis
    using merge_shapes[OF assms(1)] c unfolding m by simp
qed

theorem fused_sequence_length_witness:
  "merge_input_ids_with_time_series_features
     \<lparr>pad_token_id = 0, time_series_token_index = 9, ignore_index = -100\<rparr>
     \<lparr>num_time_series = 1, num_time_series_patches = 3, flat_features = [101, 102, 103 :: int]\<rparr>
     [[11, 12, 13, 14, 15], [21, 22, 23, 24, 25]] [[0, 1, 9, 3, 4], [0, 0, 6, 7, 8]]
     [[0, 1, 1, 1, 1], [0, 0, 1, 1, 1]] (Some [[0, 1, 9, 3, 4], [0, 0, 6, 7, 8]])
   = Inr ([[0, 12, 101, 102, 103, 14, 15], [0, 0, 0, 0, 23, 24, 25]],
          [[0, 1, 1, 1, 1, 1, 1], [0, 0, 0, 0, 1, 1, 1]],
          Some [[0, 1, -100, -100, -100, 3, 4], [-100, -100, 0, 0, 6, 7, 8]],
          [[1, 0, 1, 2, 3, 4, 5], [1, 1, 1, 1, 0, 1, 2]])
   \<and> has_shape 2 7 [[0, 12, 101, 102, 103, 14, 15], [0, 0, 0, 0, 23, 24, 25 :: int]]
   \<and> has_shape 2 7 [[0, 1, 1, 1, 1, 1, 1], [0, 0, 0, 0, 1, 1, 1 :: int]]
   \<and> has_shape 2 7 [[1, 0, 1, 2, 3, 4, 5], [1, 1, 1, 1, 0, 1, 2 :: int]]
   \<and> has_shape 2 7 [[0, 1, -100, -100, -100, 3, 4], [-100, -100, 0, 0, 6, 7, 8 :: int]]
   \<and> claimed_fused_length \<lparr>pad_token_id = 0, time_series_token_index = 9, ignore_index = -100\<rparr>
        3 [[0, 1, 9, 3, 4], [0, 0, 6, 7, 8]] = 7"
proof -
  let ?cfg = "\<lparr>pad_token_id = 0, time_series_token_index = 9, ignore_index = -100\<rparr>"
  let ?tsf = "\<lparr>num_time_series = 1, num_time_series_patches = 3,
               flat_features = [101, 102, 103 :: int]\<rparr>"
  let ?ids = "[[0, 1, 9, 3, 4], [0, 0, 6, 7, 8 :: int]]"
  have ev: "merge_input_ids_with_time_series_features ?cfg ?tsf
     [[11, 12, 13, 14, 15], [21, 22, 23, 24, 25]] ?ids
     [[0, 1, 1, 1, 1], [0, 0, 1, 1, 1]] (Some [[0, 1, 9, 3, 4], [0, 0, 6, 7, 8]])
   = Inr ([[0, 12, 101, 102, 103, 14, 15], [0, 0, 0, 0, 23, 24, 25]],
          [[0, 1, 1, 1, 1, 1, 1], [0, 0, 0, 0, 1, 1, 1]],
          Some [[0, 1, -100, -100, -100, 3, 4], [-100, -100, 0, 0, 6, 7, 8]],
          [[1, 0, 1, 2, 3, 4, 5], [1, 1, 1, 1, 0, 1, 2]])"
    by code_simp
  have sh: "has_shape (length ?ids) (shape1 ?ids) ?ids"
    by (simp add: has_shape_def shape1_def)
  have ps: "positive_slots ?cfg (num_time_series_patches ?tsf) ?ids"
    by (simp add: positive_slots_def)
  have mp: "max_placeholders ?cfg ?ids = 1"
    by (simp add: max_placeholders_def placeholder_count_def)
  have s1: "shape1 ?ids = 5" by (simp add: shape1_def)
  have n: "nat (int (shape1 ?ids)
             + int (max_placeholders ?cfg ?ids) * (int (num_time_series_patches ?tsf) - 1)) = 7"
    by (simp add: mp s1)
  note T = fused_sequence_length[OF ev sh, unfolded n]
  from T ps have c: "claimed_fused_length ?cfg 3 ?ids = 7" using mp s1 by simp
  from T have h: "has_shape 2 7 [[0, 12, 101, 102, 103, 14, 15], [0, 0, 0, 0, 23, 24, 25 :: int]]
   \<and> has_shape 2 7 [[0, 1, 1, 1, 1, 1, 1], [0, 0, 0, 0, 1, 1, 1 :: int]]
   \<and> has_shape 2 7 [[1, 0, 1, 2, 3, 4, 5], [1, 1, 1, 1, 0, 1, 2 :: int]]
   \<and> has_shape 2 7 [[0, 1, -100, -100, -100, 3, 4], [-100, -100, 0, 0, 6, 7, 8 :: int]]"
    by (simp add: has_shape_def)
  from ev h c show ?thesis by (simp only: simp_thms)
qed

text \<open>
  With zero patches per instance the two expressions differ: for the batch
  [[9, 1], [1, 2]] the merge returns fused tensors of length 2 + 1 * (0 - 1) = 1, while the
  largest over the rows of (placeholders times (0 - 1)) plus 2 is 2.
\<close>

theorem fused_length_zero_patches_counterexample:
  "merge_input_ids_with_time_series_features
     \<lparr>pad_token_id = 0, time_series_token_index = 9, ignore_index = -100\<rparr>
     \<lparr>num_time_series = 1, num_time_series_patches = 0, flat_features = ([] :: int list)\<rparr>
     [[11, 12], [21, 22]] [[9, 1], [1, 2]] [[1, 1], [1, 1]] (Some [[5, 6], [7, 8]])
   = Inr ([[12], [22]], [[1], [1]], Some [[6], [8]], [[0], [0]])
   \<and> claimed_fused_length \<lparr>pad_token_id = 0, time_series_token_index = 9, ignore_index = -100\<rparr>
       0 [[9, 1], [1, 2]] = 2
   \<and> int (length ([[12], [22 :: int]] ! 0))
       \<noteq> claimed_fused_length \<lparr>pad_token_id = 0, time_series_token_index = 9, ignore_index = -100\<rparr>
           0 [[9, 1], [1, 2]]"
proof -
  have 1: "merge_input_ids_with_time_series_features
     \<lparr>pad_token_id = 0, time_series_token_index = 9, ignore_index = -100\<rparr>
     \<lparr>num_time_series = 1, num_time_series_patches = 0, flat_features = ([] :: int list)\<rparr>
     [[11, 12], [21, 22]] [[9, 1], [1, 2]] [[1, 1], [1, 1]] (Some [[5, 6], [7, 8]])
   = Inr ([[12], [22]], [[1], [1]], Some [[6], [8]], [[0], [0]])"
    by code_simp
  have 2: "claimed_fused_length
       \<lparr>pad_token_id = 0, time_series_token_index = 9, ignore_index = -100\<rparr>
       0 [[9, 1], [1, 2]] = 2"
    by (simp add: claimed_fused_length_def placeholder_count_def shape1_def)
  from 1 2 show ?thesis by simp
qed

section \<open>Fused position ids\<close>

lemma sum_list_mask:
  assumes "list_all (\<lambda>m. m = 0 \<or> m = (1::int)) xs"
  shows "sum_list xs = int (length (filter (\<lambda>m. m \<noteq> 0) xs))"
  using assms by (induction xs) auto

lemma is_mask_nth:
  "is_mask t \<Longrightarrow> b < length t \<Longrightarrow> j < length (t ! b) \<Longrightarrow> t ! b ! j = 0 \<or> t ! b ! j = 1"
  by (simp add: is_mask_def list_all_length)

lemma index_get_values:
  assumes "index_get t idx = Inr vs" "v \<in> set vs"
  shows "\<exists>b j. b < length t \<and> j < length (t ! b) \<and> v = t ! b ! j"
proof -
  from assms(1) have ok: "\<forall>x\<in>set idx. fst x < length t \<and> snd x < length (t ! fst x)"
    and vs: "vs = map (\<lambda>(b, j). t ! b ! j) idx"
    by (auto simp: index_get_def list_all_iff split: if_splits)
  from assms(2) vs obtain x where x: "x \<in> set idx" "v = t ! fst x ! snd x"
    by (auto simp: case_prod_beta)
  with ok show ?thesis by blast
qed

lemma or_of_bool_mask:
  "(m::int) = 0 \<or> m = 1 \<Longrightarrow> m OR of_bool t = 0 \<or> m OR of_bool t = 1"
  by (cases t) auto

lemma fused_mask_entries:
  assumes "merge_input_ids_with_time_series_features cfg tsf inputs_embeds input_ids
             attention_mask labels = Inr (fe, fam, fl, pos)"
    and "is_mask attention_mask" and "b < length input_ids"
    and "q < nat (max_embed_dim cfg (num_time_series_patches tsf) input_ids)"
  shows "fam ! b ! q = 0 \<or> fam ! b ! q = 1"
proof -
  let ?P = "num_time_series_patches tsf"
  let ?B = "length input_ids"
  let ?M = "nat (max_embed_dim cfg ?P input_ids)"
  from merge_InrD[OF assms(1)] obtain text_mask fam1 tso
    where tm: "index_get attention_mask (non_time_series_indices cfg input_ids) = Inr text_mask"
      and fam1: "index_put (replicate ?B (replicate ?M 0)) (text_to_overwrite cfg ?P input_ids)
                   text_mask = Inr fam1"
      and tso: "time_series_to_overwrite cfg ?P input_ids = Inr tso"
      and fam: "fam = map (\<lambda>(mrow, trow). map (\<lambda>(m, t). m OR of_bool t) (zip mrow trow)) (zip fam1 tso)"
    by blast
  have s1: "has_shape ?B ?M fam1" by (rule index_put_shape[OF fam1 has_shape_replicate])
  have st: "has_shape ?B ?M tso" by (rule time_series_to_overwrite_shape[OF tso])
  have e: "fam1 ! b ! q = 0 \<or> fam1 ! b ! q = 1"
  proof -
    from index_put_entries[OF fam1 has_shape_replicate assms(3,4)]
    consider "fam1 ! b ! q = replicate ?B (replicate ?M 0) ! b ! q" | "fam1 ! b ! q \<in> set text_mask"
      by blast
    then show ?thesis
    proof cases
      case 1
      then show ?thesis using assms(3,4) by simp
    next
      case 2
      from index_get_values[OF tm 2] obtain b' j' where
        "b' < length attention_mask" "j' < length (attention_mask ! b')"
        "fam1 ! b ! q = attention_mask ! b' ! j'" by blast
      with is_mask_nth[OF assms(2), of b' j'] show ?thesis by simp
    qed
  qed
  have "fam ! b ! q = fam1 ! b ! q OR of_bool (tso ! b ! q)"
    using s1 st assms(3,4) by (simp add: fam has_shape_length has_shape_nth)
  with or_of_bool_mask[OF e] show ?thesis by simp
qed

text \<open>
  C8, as the code has it. Whenever the merge returns: at every place where the fused
  attention mask is nonzero the fused position id is the running sum of the fused mask
  row up to and including that place, as a signed 64-bit number, minus one; at every
  place where the fused attention mask is zero the position id is 1. For an attention
  mask of zeroes and ones (and fewer than \<open>2 ^ 63\<close> fused columns) the running sum is the
  number of nonzero places of the fused mask row up to and including that place.
\<close>

theorem fused_position_ids:
  assumes "merge_input_ids_with_time_series_features cfg tsf inputs_embeds input_ids
             attention_mask labels = Inr (fe, fam, fl, pos)"
    and "b < length fam" and "q < length (fam ! b)"
  shows "pos ! b ! q = (if fam ! b ! q \<noteq> 0
                        then wrap64 (sum_list (take (Suc q) (fam ! b)) - 1) else 1)
       \<and> (is_mask attention_mask \<and> length (fam ! b) < 2 ^ 63 \<longrightarrow>
            pos ! b ! q = (if fam ! b ! q \<noteq> 0 then int (nonzero_upto (fam ! b) q) - 1 else 1))"
proof -
  let ?M = "nat (max_embed_dim cfg (num_time_series_patches tsf) input_ids)"
  let ?s = "sum_list (take (Suc q) (fam ! b))"
  note sh = merge_shapes(2)[OF assms(1)]
  have b: "b < length input_ids" using sh assms(2) by (simp add: has_shape_length[OF sh])
  have len: "length (fam ! b) = ?M" by (rule has_shape_nth[OF sh b])
  have pos: "pos = map position_ids_row fam" using merge_InrD[OF assms(1)] by blast
  have "wrap64 (wrap64 ?s - 1) = wrap64 (?s - 1)"
    using wrap64_add_left[of ?s "- 1"] by simp
  then have first: "pos ! b ! q = (if fam ! b ! q \<noteq> 0 then wrap64 (?s - 1) else 1)"
    using assms(2,3) by (simp add: pos position_ids_row_def nth_cumsum64)
  have second: "pos ! b ! q = (if fam ! b ! q \<noteq> 0 then int (nonzero_upto (fam ! b) q) - 1 else 1)"
    if m: "is_mask attention_mask" and small: "length (fam ! b) < 2 ^ 63"
  proof -
    have "list_all (\<lambda>m. m = 0 \<or> m = 1) (take (Suc q) (fam ! b))"
      unfolding list_all_length
    proof (intro allI impI)
      fix k assume "k < length (take (Suc q) (fam ! b))"
      then have k: "k < ?M" "k < Suc q" using len by simp_all
      from fused_mask_entries[OF assms(1) m b k(1)] k(2)
      show "take (Suc q) (fam ! b) ! k = 0 \<or> take (Suc q) (fam ! b) ! k = 1" by simp
    qed
    then have s: "?s = int (nonzero_upto (fam ! b) q)"
      unfolding nonzero_upto_def by (rule sum_list_mask)
    have up: "nonzero_upto (fam ! b) q \<le> length (fam ! b)"
      unfolding nonzero_upto_def
      by (rule order_trans[OF length_filter_le]) simp
    have "wrap64 (?s - 1) = ?s - 1" if nz: "fam ! b ! q \<noteq> 0"
    proof -
      have "fam ! b ! q \<in> set (filter (\<lambda>m. m \<noteq> 0) (take (Suc q) (fam ! b)))"
        using nz assms(3) by (auto simp: in_set_conv_nth intro!: exI[of _ q])
      then have "0 < nonzero_upto (fam ! b) q"
        unfolding nonzero_upto_def by (rule length_pos_if_in_set)
      then have lo: "- (2 ^ 63) \<le> ?s - 1" unfolding s by simp
      have "int (nonzero_upto (fam ! b) q) < 2 ^ 63"
        using up small by (simp add: of_nat_less_numeral_power_cancel_iff)
      then have hi: "?s - 1 < 2 ^ 63" unfolding s by simp
      from lo hi show ?thesis by (rule wrap64_id)
    qed
    with first s show ?thesis by simp
  qed
  from first second show ?thesis by blast
qed

theorem fused_position_ids_witness:
  "merge_input_ids_with_time_series_features
     \<lparr>pad_token_id = 0, time_series_token_index = 9, ignore_index = -100\<rparr>
     \<lparr>num_time_series = 1, num_time_series_patches = 2, flat_features = [101, 102 :: int]\<rparr>
     [[11, 12, 13], [21, 22, 23]] [[1, 9, 2], [0, 0, 3]] [[1, 1, 1], [0, 0, 1]] None
   = Inr ([[11, 101, 102, 13], [0, 0, 0, 23]], [[1, 1, 1, 1], [0, 0, 0, 1]], None,
          [[0, 1, 2, 3], [1, 1, 1, 0]])
   \<and> [[0, 1, 2, 3], [1, 1, 1, 0]] ! 0 ! 2 = wrap64 (sum_list (take 3 [1, 1, 1, 1]) - 1)
   \<and> [[0, 1, 2, 3], [1, 1, 1, 0]] ! 0 ! 2 = int (nonzero_upto [1, 1, 1, 1] 2) - 1
   \<and> [[0, 1, 2, 3], [1, 1, 1, 0]] ! 1 ! 1 = (1::int)
   \<and> [[0, 1, 2, 3], [1, 1, 1, 0]] ! 1 ! 3 = int (nonzero_upto [0, 0, 0, 1] 3) - 1"
proof -
  let ?cfg = "\<lparr>pad_token_id = 0, time_series_token_index = 9, ignore_index = -100\<rparr>"
  let ?tsf = "\<lparr>num_time_series = 1, num_time_series_patches = 2, flat_features = [101, 102 :: int]\<rparr>"
  have ev: "merge_input_ids_with_time_series_features ?cfg ?tsf
     [[11, 12, 13], [21, 22, 23]] [[1, 9, 2], [0, 0, 3]] [[1, 1, 1], [0, 0, 1]] None
   = Inr ([[11, 101, 102, 13], [0, 0, 0, 23]], [[1, 1, 1, 1], [0, 0, 0, 1]], None,
          [[0, 1, 2, 3], [1, 1, 1, 0]])"
    by code_simp
  have m: "is_mask [[1, 1, 1], [0, 0, 1]]" by (simp add: is_mask_def)
  have a0: "[[0, 1, 2, 3], [1, 1, 1, 0]] ! 0 ! 2 = wrap64 (sum_list (take 3 [1, 1, 1, 1]) - 1)"
    using fused_position_ids[OF ev, of 0 2] by (simp add: numeral_3_eq_3)
  have a: "[[0, 1, 2, 3], [1, 1, 1, 0]] ! 0 ! 2 = int (nonzero_upto [1, 1, 1, 1] 2) - 1"
    using fused_position_ids[OF ev, of 0 2] m by simp
  have b: "[[0, 1, 2, 3], [1, 1, 1, 0]] ! 1 ! 1 = (1::int)"
    using fused_position_ids[OF ev, of 1 1] by simp
  have c: "[[0, 1, 2, 3], [1, 1, 1, 0]] ! 1 ! 3 = int (nonzero_upto [0, 0, 0, 1] 3) - 1"
    using fused_position_ids[OF ev, of 1 3] m by simp
  from ev a0 a b c show ?thesis by (simp only: simp_thms)
qed

text \<open>
  With an attention mask that is not made of zeroes and ones the position id is not the
  number of nonzero places minus one: for the mask row [2, -1] (no placeholder) the
  position ids are [1, 0], while the numbers of nonzero places minus one are [0, 1].
\<close>

theorem position_ids_not_count_counterexample:
  "merge_input_ids_with_time_series_features
     \<lparr>pad_token_id = 0, time_series_token_index = 9, ignore_index = -100\<rparr>
     \<lparr>num_time_series = 0, num_time_series_patches = 1, flat_features = ([] :: int list)\<rparr>
     [[11, 12]] [[1, 2]] [[2, -1]] None
   = Inr ([[11, 12]], [[2, -1]], None, [[1, 0]])
   \<and> [[2, -1 :: int]] ! 0 ! 0 \<noteq> 0
   \<and> [[1, 0 :: int]] ! 0 ! 0 \<noteq> int (nonzero_upto ([[2, -1]] ! 0) 0) - 1"
proof -
  have "merge_input_ids_with_time_series_features
     \<lparr>pad_token_id = 0, time_series_token_index = 9, ignore_index = -100\<rparr>
     \<lparr>num_time_series = 0, num_time_series_patches = 1, flat_features = ([] :: int list)\<rparr>
     [[11, 12]] [[1, 2]] [[2, -1]] None
   = Inr ([[11, 12]], [[2, -1]], None, [[1, 0]])"
    by code_simp
  then show ?thesis by (simp add: nonzero_upto_def)
qed

section \<open>Fused labels\<close>



section \<open>Destinations and copies of the original tokens\<close>

lemma nth_drop_leading_slots:
  "q < length row \<Longrightarrow> \<not> row ! q \<Longrightarrow> \<not> drop_leading_slots row p ! q"
  by (simp add: drop_leading_slots_def)

lemma in_text_columns_self:
  assumes "b < length input_ids" "j < length (input_ids ! b)"
    "input_ids ! b ! j \<noteq> time_series_token_index cfg"
  shows "norm_index (nat (max_embed_dim cfg P input_ids)) (new_token_positions cfg P input_ids ! b ! j)
           \<in> set (text_columns cfg P input_ids b)"
  using assms by (auto simp: text_columns_def)

lemma merge_text_values:
  assumes m: "merge_input_ids_with_time_series_features cfg tsf inputs_embeds input_ids
             attention_mask labels = Inr (fe, fam, fl, pos)"
    and sh: "has_shape (length input_ids) (shape1 input_ids) input_ids"
    and ps: "positive_slots cfg (num_time_series_patches tsf) input_ids"
    and b: "b < length input_ids" and j: "j < shape1 input_ids"
    and nt: "input_ids ! b ! j \<noteq> time_series_token_index cfg"
  defines "q \<equiv> nat (new_token_positions cfg (num_time_series_patches tsf) input_ids ! b ! j)"
  shows "fam ! b ! q = attention_mask ! b ! j"
    and "fe ! b ! q = (if input_ids ! b ! j = pad_token_id cfg then 0 else inputs_embeds ! b ! j)"
    and "\<And>lab. labels = Some lab \<Longrightarrow> \<exists>l. fl = Some l \<and> l ! b ! q = lab ! b ! j"
proof -
  let ?P = "num_time_series_patches tsf"
  let ?B = "length input_ids"
  let ?L = "shape1 input_ids"
  let ?M = "nat (max_embed_dim cfg ?P input_ids)"
  let ?src = "non_time_series_indices cfg input_ids"
  let ?dst = "text_to_overwrite cfg ?P input_ids"
  let ?ntp = "new_token_positions cfg ?P input_ids"
  from merge_InrD[OF m] obtain text_embeds fe1 text_mask fam1 tso fe2
    where ne: "input_ids \<noteq> []" "hd input_ids \<noteq> []"
      and te: "index_get inputs_embeds ?src = Inr text_embeds"
      and fe1: "index_put (replicate ?B (replicate ?M 0)) ?dst text_embeds = Inr fe1"
      and tm: "index_get attention_mask ?src = Inr text_mask"
      and fam1: "index_put (replicate ?B (replicate ?M 0)) ?dst text_mask = Inr fam1"
      and lab: "(case labels of None \<Rightarrow> fl = None
             | Some lab \<Rightarrow> \<exists>text_labels l. index_get lab ?src = Inr text_labels
                 \<and> index_put (replicate ?B (replicate ?M (ignore_index cfg))) ?dst text_labels = Inr l
                 \<and> fl = Some l)"
      and tso: "time_series_to_overwrite cfg ?P input_ids = Inr tso"
      and fe2: "masked_put fe1 tso (flat_features tsf) = Inr fe2"
      and fam: "fam = map (\<lambda>(mrow, trow). map (\<lambda>(m, t). m OR of_bool t) (zip mrow trow)) (zip fam1 tso)"
      and fe: "index_fill fe2 (indices_to_mask cfg ?P input_ids) 0 = Inr fe"
    by blast
  have B: "0 < ?B" using ne by simp
  have len: "length (input_ids ! b) = ?L" using sh b by (simp add: has_shape_nth)
  have jl: "j < length (input_ids ! b)" using len j by simp
  note rng = new_token_positions_range[OF sh b j ps]
  have qn: "norm_index ?M (?ntp ! b ! j) = q"
    using rng(1) by (simp add: q_def norm_index_nonneg)
  have qM: "q < ?M" using rng by (simp add: q_def)
  have srcr: "\<forall>w\<in>set ?src. fst w < ?B \<and> snd w < ?L"
    unfolding non_time_series_indices_def by (rule torch_where_range[OF sh])
  have dist: "distinct (map (\<lambda>w. (fst w, norm_index ?M (snd w))) ?dst)"
    unfolding text_to_overwrite_def
    by (rule destinations_distinct[OF sh ps srcr])
       (simp add: non_time_series_indices_def distinct_torch_where)
  have "(b, j) \<in> set ?src"
    using b jl nt by (simp add: non_time_series_indices_def set_torch_where)
  then obtain k where k: "k < length ?src" "?src ! k = (b, j)"
    by (auto simp: in_set_conv_nth)
  have kd: "k < length ?dst" "?dst ! k = (b, ?ntp ! b ! j)"
    using k by (simp_all add: text_to_overwrite_def)
  have s1: "has_shape ?B ?M fe1" by (rule index_put_shape[OF fe1 has_shape_replicate])
  have s2: "has_shape ?B ?M fe2" by (rule masked_put_shape[OF fe2 s1])
  have sm: "has_shape ?B ?M fam1" by (rule index_put_shape[OF fam1 has_shape_replicate])
  have st: "has_shape ?B ?M tso" by (rule time_series_to_overwrite_shape[OF tso])
  have qin: "q \<in> set (text_columns cfg ?P input_ids b)"
    using in_text_columns_self[OF b jl nt, of ?P] by (simp add: qn)
  have tq: "\<not> tso ! b ! q"
    unfolding time_series_to_overwrite_nth[OF tso b]
    by (rule nth_drop_leading_slots) (use qM qin in simp_all)
  \<comment> \<open>the attention mask\<close>
  have "fam1 ! b ! q = text_mask ! k"
    using index_put_nth_written[OF fam1 has_shape_replicate dist kd(1)] kd(2) qn by simp
  also have "\<dots> = attention_mask ! b ! j"
    using index_get_InrD[OF tm] k by simp
  finally have f1: "fam1 ! b ! q = attention_mask ! b ! j" .
  have "fam ! b ! q = fam1 ! b ! q OR of_bool (tso ! b ! q)"
    using sm st b qM by (simp add: fam has_shape_length has_shape_nth)
  with f1 tq show "fam ! b ! q = attention_mask ! b ! j" by simp
  \<comment> \<open>the embeddings\<close>
  have "fe1 ! b ! q = text_embeds ! k"
    using index_put_nth_written[OF fe1 has_shape_replicate dist kd(1)] kd(2) qn by simp
  also have "\<dots> = inputs_embeds ! b ! j"
    using index_get_InrD[OF te] k by simp
  finally have e1: "fe1 ! b ! q = inputs_embeds ! b ! j" .
  have e2: "fe2 ! b ! q = fe1 ! b ! q"
    using masked_put_nth[OF fe2, of b q] s1 b qM tq by (simp add: has_shape_length has_shape_nth)
  have hit: "(\<exists>w\<in>set (indices_to_mask cfg ?P input_ids). fst w = b \<and> norm_index ?M (snd w) = q)
              \<longleftrightarrow> input_ids ! b ! j = pad_token_id cfg"
  proof
    assume "\<exists>w\<in>set (indices_to_mask cfg ?P input_ids). fst w = b \<and> norm_index ?M (snd w) = q"
    then obtain j' where j': "j' < length (input_ids ! b)" "input_ids ! b ! j' = pad_token_id cfg"
      and e: "norm_index ?M (?ntp ! b ! j') = q"
      by (auto simp: indices_to_mask_def set_torch_where)
    have j'L: "j' < ?L" using j'(1) len by simp
    note r' = new_token_positions_range[OF sh b j'L ps]
    from e r'(1) rng(1) have "?ntp ! b ! j' = ?ntp ! b ! j"
      by (simp add: norm_index_nonneg q_def)
    from new_token_positions_inj[OF sh b j'L j ps this] j'(2)
    show "input_ids ! b ! j = pad_token_id cfg" by simp
  next
    assume "input_ids ! b ! j = pad_token_id cfg"
    then have "(b, ?ntp ! b ! j) \<in> set (indices_to_mask cfg ?P input_ids)"
      using b jl by (force simp: indices_to_mask_def set_torch_where)
    with qn show "\<exists>w\<in>set (indices_to_mask cfg ?P input_ids). fst w = b \<and> norm_index ?M (snd w) = q"
      by force
  qed
  show "fe ! b ! q = (if input_ids ! b ! j = pad_token_id cfg then 0 else inputs_embeds ! b ! j)"
    using index_fill_nth[OF fe s2 b qM] hit e1 e2 by simp
  \<comment> \<open>the labels\<close>
  show "\<exists>l. fl = Some l \<and> l ! b ! q = lab' ! b ! j" if "labels = Some lab'" for lab'
  proof -
    from lab that obtain text_labels l where
      tl: "index_get lab' ?src = Inr text_labels"
      and put: "index_put (replicate ?B (replicate ?M (ignore_index cfg))) ?dst text_labels = Inr l"
      and fl: "fl = Some l" by auto
    have "l ! b ! q = text_labels ! k"
      using index_put_nth_written[OF put has_shape_replicate dist kd(1)] kd(2) qn by simp
    also have "\<dots> = lab' ! b ! j"
      using index_get_InrD[OF tl] k by simp
    finally show ?thesis using fl by simp
  qed
qed

lemma nb_time_series_pad_last:
  assumes "has_shape B L input_ids" "0 < L" "b < B"
  shows "nb_time_series_pad cfg P input_ids ! b
           = max_embed_dim cfg P input_ids - 1 - (running_slots cfg P (input_ids ! b) (L - 1) - 1)"
proof -
  have Bl: "b < length input_ids" and len: "length (input_ids ! b) = L"
    using assms by (simp_all add: has_shape_length has_shape_nth)
  have ne: "input_ids ! b \<noteq> []" using len assms(2) by auto
  have "last (natural_positions cfg P input_ids ! b)
          = running_slots cfg P (input_ids ! b) (L - 1) - 1"
    using last_natural_positions[OF assms, of cfg P] running_slots_last[OF ne, of cfg P] len
    by simp
  then show ?thesis using Bl by (simp add: nb_time_series_pad_def)
qed

text \<open>
  C4, as the code has it. Whenever the merge returns on a rectangular batch, the
  destination column of every original (row, column) is the running sum of slots up to
  and including that column (a placeholder counts \<open>P_patches\<close>, every other token one)
  minus one, plus, for a left-padded batch only, the fused length minus one minus the last
  destination of the row. When every token takes at least one fused column (each
  time-series instance has at least one patch, or there is no placeholder) the
  destination lies inside the fused row and, for a token that is not the placeholder,
  the attention-mask bit and the label are copied unchanged to that destination; its
  embedding is copied unchanged when the token is not the pad token, and the fused
  embedding at the destination of a pad token is zero (step 6 of the source).
\<close>

theorem destinations_and_copies:
  assumes "merge_input_ids_with_time_series_features cfg tsf inputs_embeds input_ids
             attention_mask labels = Inr (fe, fam, fl, pos)"
    and "has_shape (length input_ids) (shape1 input_ids) input_ids"
    and "b < length input_ids" and "j < shape1 input_ids"
  shows "new_token_positions cfg (num_time_series_patches tsf) input_ids ! b ! j
           = running_slots cfg (num_time_series_patches tsf) (input_ids ! b) j - 1
             + (if left_padding cfg input_ids
                then max_embed_dim cfg (num_time_series_patches tsf) input_ids - 1
                     - (running_slots cfg (num_time_series_patches tsf) (input_ids ! b)
                          (shape1 input_ids - 1) - 1)
                else 0)
       \<and> (positive_slots cfg (num_time_series_patches tsf) input_ids \<longrightarrow>
            0 \<le> new_token_positions cfg (num_time_series_patches tsf) input_ids ! b ! j
          \<and> new_token_positions cfg (num_time_series_patches tsf) input_ids ! b ! j
               < max_embed_dim cfg (num_time_series_patches tsf) input_ids
          \<and> (input_ids ! b ! j \<noteq> time_series_token_index cfg \<longrightarrow>
                fam ! b ! nat (new_token_positions cfg (num_time_series_patches tsf) input_ids ! b ! j)
                  = attention_mask ! b ! j
              \<and> (\<forall>lab. labels = Some lab \<longrightarrow>
                    (\<exists>l. fl = Some l
                       \<and> l ! b ! nat (new_token_positions cfg (num_time_series_patches tsf)
                                        input_ids ! b ! j)
                           = lab ! b ! j))
              \<and> (input_ids ! b ! j \<noteq> pad_token_id cfg \<longrightarrow>
                    fe ! b ! nat (new_token_positions cfg (num_time_series_patches tsf)
                                    input_ids ! b ! j)
                      = inputs_embeds ! b ! j)
              \<and> (input_ids ! b ! j = pad_token_id cfg \<longrightarrow>
                    fe ! b ! nat (new_token_positions cfg (num_time_series_patches tsf)
                                    input_ids ! b ! j)
                      = 0)))"
proof -
  let ?P = "num_time_series_patches tsf"
  have L: "0 < shape1 input_ids" using assms(4) by simp
  have pos: "new_token_positions cfg ?P input_ids ! b ! j
           = running_slots cfg ?P (input_ids ! b) j - 1
             + (if left_padding cfg input_ids
                then max_embed_dim cfg ?P input_ids - 1
                     - (running_slots cfg ?P (input_ids ! b) (shape1 input_ids - 1) - 1)
                else 0)"
    using new_token_positions_nth[OF assms(2,3,4), of cfg ?P]
      nb_time_series_pad_last[OF assms(2) L assms(3), of cfg ?P] by simp
  have rest: "0 \<le> new_token_positions cfg ?P input_ids ! b ! j
          \<and> new_token_positions cfg ?P input_ids ! b ! j < max_embed_dim cfg ?P input_ids
          \<and> (input_ids ! b ! j \<noteq> time_series_token_index cfg \<longrightarrow>
                fam ! b ! nat (new_token_positions cfg ?P input_ids ! b ! j) = attention_mask ! b ! j
              \<and> (\<forall>lab. labels = Some lab \<longrightarrow>
                    (\<exists>l. fl = Some l
                       \<and> l ! b ! nat (new_token_positions cfg ?P input_ids ! b ! j) = lab ! b ! j))
              \<and> (input_ids ! b ! j \<noteq> pad_token_id cfg \<longrightarrow>
                    fe ! b ! nat (new_token_positions cfg ?P input_ids ! b ! j)
                      = inputs_embeds ! b ! j)
              \<and> (input_ids ! b ! j = pad_token_id cfg \<longrightarrow>
                    fe ! b ! nat (new_token_positions cfg ?P input_ids ! b ! j) = 0))"
    if ps: "positive_slots cfg ?P input_ids"
  proof -
    note rng = new_token_positions_range[OF assms(2,3,4) ps]
    have vals: "fam ! b ! nat (new_token_positions cfg ?P input_ids ! b ! j) = attention_mask ! b ! j
          \<and> (\<forall>lab. labels = Some lab \<longrightarrow>
                (\<exists>l. fl = Some l
                   \<and> l ! b ! nat (new_token_positions cfg ?P input_ids ! b ! j) = lab ! b ! j))
          \<and> (input_ids ! b ! j \<noteq> pad_token_id cfg \<longrightarrow>
                fe ! b ! nat (new_token_positions cfg ?P input_ids ! b ! j) = inputs_embeds ! b ! j)
          \<and> (input_ids ! b ! j = pad_token_id cfg \<longrightarrow>
                fe ! b ! nat (new_token_positions cfg ?P input_ids ! b ! j) = 0)"
      if nt: "input_ids ! b ! j \<noteq> time_series_token_index cfg"
      using merge_text_values[OF assms(1,2) ps assms(3,4) nt] by simp
    from rng vals show ?thesis by blast
  qed
  from pos rest show ?thesis by blast
qed

theorem destinations_and_copies_witness:
  "merge_input_ids_with_time_series_features
     \<lparr>pad_token_id = 0, time_series_token_index = 9, ignore_index = -100\<rparr>
     \<lparr>num_time_series = 1, num_time_series_patches = 2, flat_features = [101, 102 :: int]\<rparr>
     [[11, 12, 13], [21, 22, 23]] [[1, 9, 2], [0, 0, 3]] [[1, 1, 1], [0, 0, 1]]
     (Some [[1, 9, 2], [0, 0, 3]])
   = Inr ([[11, 101, 102, 13], [0, 0, 0, 23]], [[1, 1, 1, 1], [0, 0, 0, 1]],
          Some [[1, -100, -100, 2], [-100, 0, 0, 3]], [[0, 1, 2, 3], [1, 1, 1, 0]])
   \<and> new_token_positions \<lparr>pad_token_id = 0, time_series_token_index = 9, ignore_index = -100\<rparr> 2
        [[1, 9, 2], [0, 0, 3]] ! 0 ! 2 = 3
   \<and> [[11, 101, 102, 13], [0, 0, 0, 23 :: int]] ! 0 ! 3 = [[11, 12, 13], [21, 22, 23]] ! 0 ! 2
   \<and> [[1, 1, 1, 1], [0, 0, 0, 1 :: int]] ! 0 ! 3 = [[1, 1, 1], [0, 0, 1]] ! 0 ! 2
   \<and> new_token_positions \<lparr>pad_token_id = 0, time_series_token_index = 9, ignore_index = -100\<rparr> 2
        [[1, 9, 2], [0, 0, 3]] ! 1 ! 1 = 2
   \<and> [[11, 101, 102, 13], [0, 0, 0, 23 :: int]] ! 1 ! 2 = 0"
proof -
  let ?cfg = "\<lparr>pad_token_id = 0, time_series_token_index = 9, ignore_index = -100\<rparr>"
  let ?tsf = "\<lparr>num_time_series = 1, num_time_series_patches = 2, flat_features = [101, 102 :: int]\<rparr>"
  let ?ids = "[[1, 9, 2], [0, 0, 3 :: int]]"
  have ev: "merge_input_ids_with_time_series_features ?cfg ?tsf
     [[11, 12, 13], [21, 22, 23]] ?ids [[1, 1, 1], [0, 0, 1]]
     (Some [[1, 9, 2], [0, 0, 3]])
   = Inr ([[11, 101, 102, 13], [0, 0, 0, 23]], [[1, 1, 1, 1], [0, 0, 0, 1]],
          Some [[1, -100, -100, 2], [-100, 0, 0, 3]], [[0, 1, 2, 3], [1, 1, 1, 0]])"
    by code_simp
  have sh: "has_shape (length ?ids) (shape1 ?ids) ?ids"
    by (simp add: has_shape_def shape1_def)
  have ps: "positive_slots ?cfg (num_time_series_patches ?tsf) ?ids"
    by (simp add: positive_slots_def)
  have p1: "new_token_positions ?cfg 2 ?ids ! 0 ! 2 = 3" by code_simp
  have p2: "new_token_positions ?cfg 2 ?ids ! 1 ! 1 = 2" by code_simp
  have a: "[[11, 101, 102, 13], [0, 0, 0, 23 :: int]] ! 0 ! 3 = [[11, 12, 13], [21, 22, 23]] ! 0 ! 2
        \<and> [[1, 1, 1, 1], [0, 0, 0, 1 :: int]] ! 0 ! 3 = [[1, 1, 1], [0, 0, 1]] ! 0 ! 2"
    using p1 ps destinations_and_copies[OF ev sh, of 0 2] by (simp add: shape1_def)
  have b: "[[11, 101, 102, 13], [0, 0, 0, 23 :: int]] ! 1 ! 2 = 0"
    using p2 ps destinations_and_copies[OF ev sh, of 1 1] by (simp add: shape1_def)
  from ev p1 p2 a b show ?thesis by (simp only: simp_thms)
qed

text \<open>
  The embedding of a pad token is not copied: in the one-row batch [[pad, 5]] with
  embeddings [[7, 8]] the pad token is not a placeholder, its destination is column 0,
  and the fused embedding there is 0, not 7. And with zero patches per instance two
  tokens of a row can share a destination: in the batch [[9, 1], [1, 2]] the tokens of
  row 1 have destinations -1 and 0, both the only fused column, and the embedding 21 of
  the first is overwritten by the embedding 22 of the second.
\<close>

theorem pad_embedding_not_copied_counterexample:
  "merge_input_ids_with_time_series_features
     \<lparr>pad_token_id = 0, time_series_token_index = 9, ignore_index = -100\<rparr>
     \<lparr>num_time_series = 0, num_time_series_patches = 1, flat_features = ([] :: int list)\<rparr>
     [[7, 8]] [[0, 5]] [[0, 1]] None
   = Inr ([[0, 8]], [[0, 1]], None, [[1, 0]])
   \<and> [[0, 5 :: int]] ! 0 ! 0
        \<noteq> time_series_token_index \<lparr>pad_token_id = 0, time_series_token_index = 9, ignore_index = -100\<rparr>
   \<and> new_token_positions \<lparr>pad_token_id = 0, time_series_token_index = 9, ignore_index = -100\<rparr> 1
        [[0, 5]] ! 0 ! 0 = 0
   \<and> [[0, 8 :: int]] ! 0 ! 0 \<noteq> [[7, 8]] ! 0 ! 0
   \<and> merge_input_ids_with_time_series_features
     \<lparr>pad_token_id = 0, time_series_token_index = 9, ignore_index = -100\<rparr>
     \<lparr>num_time_series = 1, num_time_series_patches = 0, flat_features = ([] :: int list)\<rparr>
     [[11, 12], [21, 22]] [[9, 1], [1, 2]] [[1, 1], [1, 1]] (Some [[5, 6], [7, 8]])
   = Inr ([[12], [22]], [[1], [1]], Some [[6], [8]], [[0], [0]])
   \<and> new_token_positions \<lparr>pad_token_id = 0, time_series_token_index = 9, ignore_index = -100\<rparr> 0
        [[9, 1], [1, 2]] ! 1 ! 0 = - 1
   \<and> [[12], [22 :: int]] ! 1 ! norm_index 1 (- 1) \<noteq> [[11, 12], [21, 22]] ! 1 ! 0"
proof -
  let ?cfg = "\<lparr>pad_token_id = 0, time_series_token_index = 9, ignore_index = -100\<rparr>"
  have ev: "merge_input_ids_with_time_series_features ?cfg
     \<lparr>num_time_series = 0, num_time_series_patches = 1, flat_features = ([] :: int list)\<rparr>
     [[7, 8]] [[0, 5]] [[0, 1]] None
   = Inr ([[0, 8]], [[0, 1]], None, [[1, 0]])"
    by code_simp
  have p: "new_token_positions ?cfg 1 [[0, 5]] ! 0 ! 0 = 0" by code_simp
  have ev0: "merge_input_ids_with_time_series_features ?cfg
     \<lparr>num_time_series = 1, num_time_series_patches = 0, flat_features = ([] :: int list)\<rparr>
     [[11, 12], [21, 22]] [[9, 1], [1, 2]] [[1, 1], [1, 1]] (Some [[5, 6], [7, 8]])
   = Inr ([[12], [22]], [[1], [1]], Some [[6], [8]], [[0], [0]])"
    by code_simp
  have p0: "new_token_positions ?cfg 0 [[9, 1], [1, 2]] ! 1 ! 0 = - 1" by code_simp
  from ev p ev0 p0 show ?thesis by (simp add: norm_index_def)
qed

section \<open>Batches without placeholders\<close>

lemma running_slots_no_placeholder:
  assumes "placeholder_count cfg row = 0" "j < length row"
  shows "running_slots cfg P row j = int j + 1"
proof -
  have "\<And>k. k \<le> j \<Longrightarrow> row ! k \<noteq> time_series_token_index cfg"
    using assms by (auto simp: placeholder_count_def filter_empty_conv)
  then have "running_slots cfg P row j = (\<Sum>k\<le>j. 1)"
    unfolding running_slots_def by (intro sum.cong) auto
  then show ?thesis by simp
qed

lemma new_token_positions_no_placeholder:
  assumes "has_shape B L input_ids" "b < B" "j < L" "total_placeholders cfg input_ids = 0"
  shows "new_token_positions cfg P input_ids ! b ! j = int j"
proof -
  have Bl: "b < length input_ids" and len: "length (input_ids ! b) = L"
    using assms by (simp_all add: has_shape_length has_shape_nth)
  have ne: "input_ids \<noteq> []" using Bl by auto
  have L: "0 < L" using assms(3) by simp
  have c: "placeholder_count cfg (input_ids ! b) = 0"
    using assms(4) Bl by (simp add: placeholder_count_zero)
  have "nb_time_series_pad cfg P input_ids ! b = 0"
    using nb_time_series_pad_nth[OF assms(1) L assms(2), of cfg P] c
      max_placeholders_zero[OF assms(4) ne] by simp
  then show ?thesis
    using new_token_positions_nth[OF assms(1-3), of cfg P]
      running_slots_no_placeholder[OF c, of j P] assms(3) len by simp
qed

lemma tensor_eqI:
  assumes "has_shape B L xs" "has_shape B L ys"
    "\<And>b j. b < B \<Longrightarrow> j < L \<Longrightarrow> xs ! b ! j = ys ! b ! j"
  shows "xs = ys"
proof (rule nth_equalityI)
  show "length xs = length ys" using assms(1,2) by (simp add: has_shape_length)
next
  fix b assume "b < length xs"
  then have b: "b < B" using assms(1) by (simp add: has_shape_length)
  show "xs ! b = ys ! b"
  proof (rule nth_equalityI)
    show "length (xs ! b) = length (ys ! b)" using assms(1,2) b by (simp add: has_shape_nth)
  next
    fix j assume "j < length (xs ! b)"
    then have "j < L" using assms(1) b by (simp add: has_shape_nth)
    with b show "xs ! b ! j = ys ! b ! j" by (rule assms(3))
  qed
qed

text \<open>
  C3, as the code has it. For every input of the shape contract with no placeholder token
  and an empty time-series feature batch, the merge returns the original attention mask
  and labels unchanged, and the original embeddings with the vector at every pad-token
  place set to zero; the position ids are those of the original attention mask.
\<close>

theorem merge_without_placeholders:
  assumes "well_shaped tsf inputs_embeds input_ids attention_mask labels"
    and "total_placeholders cfg input_ids = 0"
    and "num_time_series tsf * num_time_series_patches tsf = 0"
  shows "merge_input_ids_with_time_series_features cfg tsf inputs_embeds input_ids
           attention_mask labels
         = Inr (map (\<lambda>(irow, erow). map (\<lambda>(t, e). if t = pad_token_id cfg then 0 else e)
                                       (zip irow erow)) (zip input_ids inputs_embeds),
                attention_mask, labels, map position_ids_row attention_mask)"
proof -
  let ?P = "num_time_series_patches tsf"
  let ?B = "length input_ids"
  let ?L = "shape1 input_ids"
  note D = well_shapedD[OF assms(1)]
  have ps: "positive_slots cfg ?P input_ids" using assms(2) by (simp add: positive_slots_def)
  have ne: "input_ids \<noteq> []" using D(1) by auto
  have "time_series_slot_count cfg ?P input_ids = num_time_series tsf * ?P"
    using time_series_slot_count_eq[OF D(3) D(2) ps] assms(2,3) by simp
  with merge_outcome[OF assms(1) ps] obtain out where
    "merge_input_ids_with_time_series_features cfg tsf inputs_embeds input_ids
       attention_mask labels = Inr out" by auto
  then obtain fe fam fl pos where
    m: "merge_input_ids_with_time_series_features cfg tsf inputs_embeds input_ids
          attention_mask labels = Inr (fe, fam, fl, pos)"
    by (cases out) auto
  have M: "nat (max_embed_dim cfg ?P input_ids) = ?L"
    using max_embed_dim_eq[OF D(3) D(1), of cfg ?P] max_placeholders_zero[OF assms(2) ne]
    by simp
  note sh = merge_shapes[OF m, unfolded M]
  have q: "nat (new_token_positions cfg ?P input_ids ! b ! j) = j" if "b < ?B" "j < ?L" for b j
    using new_token_positions_no_placeholder[OF D(3) that assms(2), of ?P] by simp
  have nt: "input_ids ! b ! j \<noteq> time_series_token_index cfg" if "b < ?B" "j < ?L" for b j
  proof -
    have "placeholder_count cfg (input_ids ! b) = 0"
      using assms(2) that(1) by (simp add: placeholder_count_zero)
    moreover have "j < length (input_ids ! b)" using D(3) that by (simp add: has_shape_nth)
    ultimately show ?thesis by (auto simp: placeholder_count_def filter_empty_conv)
  qed
  note tv = merge_text_values[OF m D(3) ps _ _ nt]
  have fam: "fam = attention_mask"
  proof (rule tensor_eqI[OF sh(2) D(5)])
    fix b j assume bj: "b < ?B" "j < ?L"
    from tv(1)[OF bj bj] q[OF bj] show "fam ! b ! j = attention_mask ! b ! j" by simp
  qed
  let ?z = "map (\<lambda>(irow, erow). map (\<lambda>(t, e). if t = pad_token_id cfg then 0 else e)
                                       (zip irow erow)) (zip input_ids inputs_embeds)"
  have zs: "has_shape ?B ?L ?z"
    by (rule has_shape_map2[OF D(3) D(4)])
  have fe: "fe = ?z"
  proof (rule tensor_eqI[OF sh(1) zs])
    fix b j assume bj: "b < ?B" "j < ?L"
    have "fe ! b ! j = (if input_ids ! b ! j = pad_token_id cfg then 0 else inputs_embeds ! b ! j)"
      using tv(2)[OF bj bj] q[OF bj] by simp
    also have "\<dots> = ?z ! b ! j"
    proof -
      have l1: "length inputs_embeds = ?B" using D(4) by (rule has_shape_length)
      have l2: "length (input_ids ! b) = ?L" by (rule has_shape_nth[OF D(3) bj(1)])
      have l3: "length (inputs_embeds ! b) = ?L" by (rule has_shape_nth[OF D(4) bj(1)])
      show ?thesis using bj l1 l2 l3 by simp
    qed
    finally show "fe ! b ! j = ?z ! b ! j" .
  qed
  from merge_InrD[OF m] have
    lab: "(case labels of None \<Rightarrow> fl = None
             | Some lab \<Rightarrow> \<exists>text_labels l.
                 index_get lab (non_time_series_indices cfg input_ids) = Inr text_labels
                 \<and> index_put (replicate ?B (replicate (nat (max_embed_dim cfg ?P input_ids))
                                   (ignore_index cfg)))
                     (text_to_overwrite cfg ?P input_ids) text_labels = Inr l
                 \<and> fl = Some l)"
    by blast
  have fl: "fl = labels"
  proof (cases labels)
    case None
    then show ?thesis using lab by simp
  next
    case (Some lab')
    from lab Some obtain l where l: "fl = Some l" by auto
    have "l = lab'"
    proof (rule tensor_eqI[OF sh(4)[OF l] D(6)[OF Some]])
      fix b j assume bj: "b < ?B" "j < ?L"
      from tv(3)[OF bj bj Some] l q[OF bj] show "l ! b ! j = lab' ! b ! j" by simp
    qed
    with l Some show ?thesis by simp
  qed
  have "pos = map position_ids_row fam" using merge_InrD[OF m] by blast
  with m fe fam fl show ?thesis by simp
qed

theorem merge_without_placeholders_witness:
  "merge_input_ids_with_time_series_features
     \<lparr>pad_token_id = 0, time_series_token_index = 9, ignore_index = -100\<rparr>
     \<lparr>num_time_series = 0, num_time_series_patches = 3, flat_features = ([] :: int list)\<rparr>
     [[11, 12, 13], [21, 22, 23]] [[0, 2, 1], [2, 3, 4]] [[0, 1, 1], [1, 1, 1]]
     (Some [[7, 7, 7], [8, 8, 8]])
   = Inr ([[0, 12, 13], [21, 22, 23]], [[0, 1, 1], [1, 1, 1]], Some [[7, 7, 7], [8, 8, 8]],
          [[1, 0, 1], [0, 1, 2]])"
proof -
  let ?cfg = "\<lparr>pad_token_id = 0, time_series_token_index = 9, ignore_index = -100\<rparr>"
  let ?tsf = "\<lparr>num_time_series = 0, num_time_series_patches = 3, flat_features = ([] :: int list)\<rparr>"
  have ws: "well_shaped ?tsf [[11, 12, 13], [21, 22, 23 :: int]] [[0, 2, 1], [2, 3, 4]]
              [[0, 1, 1], [1, 1, 1]] (Some [[7, 7, 7], [8, 8, 8]])"
    by (simp add: well_shaped_def shape1_def has_shape_def)
  have tp: "total_placeholders ?cfg [[0, 2, 1], [2, 3, 4]] = 0"
    by (simp add: total_placeholders_def placeholder_count_def)
  have z: "num_time_series ?tsf * num_time_series_patches ?tsf = 0" by simp
  have e: "map (\<lambda>(irow, erow). map (\<lambda>(t, e). if t = pad_token_id ?cfg then 0 else e)
                                       (zip irow erow))
             (zip [[0, 2, 1], [2, 3, 4]] [[11, 12, 13], [21, 22, 23 :: int]])
           = [[0, 12, 13], [21, 22, 23]]"
    by simp
  have p: "map position_ids_row [[0, 1, 1], [1, 1, 1]] = [[1, 0, 1], [0, 1, 2]]"
    by code_simp
  show ?thesis
    using merge_without_placeholders[OF ws tp z] unfolding e p .
qed

text \<open>
  The merge is not the identity on the embeddings at pad-token places: with no placeholder
  in the batch, the embedding 11 of the pad token of row 0 comes back as 0.
\<close>

theorem merge_identity_pad_counterexample:
  "merge_input_ids_with_time_series_features
     \<lparr>pad_token_id = 0, time_series_token_index = 9, ignore_index = -100\<rparr>
     \<lparr>num_time_series = 0, num_time_series_patches = 3, flat_features = ([] :: int list)\<rparr>
     [[11, 12, 13], [21, 22, 23]] [[0, 2, 1], [2, 3, 4]] [[0, 1, 1], [1, 1, 1]]
     (Some [[7, 7, 7], [8, 8, 8]])
   = Inr ([[0, 12, 13], [21, 22, 23]], [[0, 1, 1], [1, 1, 1]], Some [[7, 7, 7], [8, 8, 8]],
          [[1, 0, 1], [0, 1, 2]])
   \<and> total_placeholders \<lparr>pad_token_id = 0, time_series_token_index = 9, ignore_index = -100\<rparr>
        [[0, 2, 1], [2, 3, 4]] = 0
   \<and> [[0, 12, 13], [21, 22, 23]] \<noteq> [[11, 12, 13], [21, 22, 23 :: int]]"
proof -
  have "merge_input_ids_with_time_series_features
     \<lparr>pad_token_id = 0, time_series_token_index = 9, ignore_index = -100\<rparr>
     \<lparr>num_time_series = 0, num_time_series_patches = 3, flat_features = ([] :: int list)\<rparr>
     [[11, 12, 13], [21, 22, 23]] [[0, 2, 1], [2, 3, 4]] [[0, 1, 1], [1, 1, 1]]
     (Some [[7, 7, 7], [8, 8, 8]])
   = Inr ([[0, 12, 13], [21, 22, 23]], [[0, 1, 1], [1, 1, 1]], Some [[7, 7, 7], [8, 8, 8]],
          [[1, 0, 1], [0, 1, 2]])"
    by code_simp
  then show ?thesis by (simp add: total_placeholders_def placeholder_count_def)
qed

section \<open>Precomputed embeddings\<close>

text \<open>
  C9, as the code has it. When \<open>inputs_embeds\<close> is supplied, \<open>forward\<close> never fails before the
  call of the language model and passes on the supplied attention mask, position ids and
  labels, and the supplied embeddings converted to the dtype of the language model
  (line 296); these are the supplied embeddings themselves whenever the conversion
  changes none of their values. The result does not depend on the token ids, the
  time-series values and their mask or the cache, so neither the merge nor the
  cache-mask adjustment contributes to it, and two calls that differ only in the
  time-series values and mask pass identical inputs to the language model.
\<close>

theorem forward_with_inputs_embeds:
  "forward model input_ids time_series_values time_series_input_mask attention_mask position_ids
     past_key_values (Some embeds) labels
   = Inr \<lparr>lm_attention_mask = attention_mask, lm_position_ids = position_ids,
          lm_inputs_embeds = map (map (to_language_model_dtype model)) embeds,
          lm_labels = labels\<rparr>
   \<and> ((\<forall>row\<in>set embeds. \<forall>x\<in>set row. to_language_model_dtype model x = x) \<longrightarrow>
        forward model input_ids time_series_values time_series_input_mask attention_mask
          position_ids past_key_values (Some embeds) labels
        = Inr \<lparr>lm_attention_mask = attention_mask, lm_position_ids = position_ids,
               lm_inputs_embeds = embeds, lm_labels = labels\<rparr>)
   \<and> forward model input_ids time_series_values time_series_input_mask attention_mask position_ids
       past_key_values (Some embeds) labels
     = forward model input_ids' time_series_values' time_series_input_mask' attention_mask
         position_ids past_key_values' (Some embeds) labels"
proof -
  have "map (map (to_language_model_dtype model)) embeds = embeds"
    if "\<forall>row\<in>set embeds. \<forall>x\<in>set row. to_language_model_dtype model x = x"
  proof -
    have "map (to_language_model_dtype model) row = row" if "row \<in> set embeds" for row
      using \<open>\<forall>row\<in>set embeds. \<forall>x\<in>set row. to_language_model_dtype model x = x\<close> that
      by (simp add: map_idI)
    then show ?thesis by (simp add: map_idI)
  qed
  then show ?thesis by (simp add: forward_def)
qed

theorem forward_with_inputs_embeds_witness:
  "forward \<lparr>config = \<lparr>pad_token_id = 0, time_series_token_index = 9, ignore_index = -100\<rparr>,
             get_input_embeddings = (\<lambda>ids. Inl RuntimeFault),
             time_series_encoder = (\<lambda>(v::unit) (w::unit option). Inl RuntimeFault),
             to_time_series_dtype = (\<lambda>x. x), to_language_model_dtype = (\<lambda>x. x),
             float_sum_is_zero = (\<lambda>ks :: int list. sum_list ks = 0)\<rparr>
     None (Some ()) None (Some [[1, 1]]) None None (Some [[7, 8 :: int]]) None
   = Inr \<lparr>lm_attention_mask = Some [[1, 1]], lm_position_ids = None,
          lm_inputs_embeds = [[7, 8]], lm_labels = None\<rparr>"
proof -
  let ?model = "\<lparr>config = \<lparr>pad_token_id = 0, time_series_token_index = 9, ignore_index = -100\<rparr>,
             get_input_embeddings = (\<lambda>ids. (Inl RuntimeFault :: error + int list list)),
             time_series_encoder = (\<lambda>(v::unit) (w::unit option).
                (Inl RuntimeFault :: error + int ts_features)),
             to_time_series_dtype = (\<lambda>x. x), to_language_model_dtype = (\<lambda>x. x),
             float_sum_is_zero = (\<lambda>ks :: int list. sum_list ks = 0)\<rparr>"
  have c: "\<forall>row\<in>set [[7, 8 :: int]]. \<forall>x\<in>set row. to_language_model_dtype ?model x = x"
    by simp
  from forward_with_inputs_embeds[of ?model None "Some ()" None "Some [[1, 1]]" None None
      "[[7, 8]]" None] c
  show ?thesis by blast
qed

text \<open>
  The embeddings passed on are the converted ones: with a conversion that rounds every
  odd number down to the even number below it, the supplied embeddings [[7, 8]] reach the
  language model as [[6, 8]].
\<close>

theorem forward_cast_counterexample:
  "forward \<lparr>config = \<lparr>pad_token_id = 0, time_series_token_index = 9, ignore_index = -100\<rparr>,
             get_input_embeddings = (\<lambda>ids. Inl RuntimeFault),
             time_series_encoder = (\<lambda>(v::unit) (w::unit option). Inl RuntimeFault),
             to_time_series_dtype = (\<lambda>x. x), to_language_model_dtype = (\<lambda>x. 2 * (x div 2)),
             float_sum_is_zero = (\<lambda>ks :: int list. sum_list ks = 0)\<rparr>
     None (Some ()) None (Some [[1, 1]]) None None (Some [[7, 8 :: int]]) None
   = Inr \<lparr>lm_attention_mask = Some [[1, 1]], lm_position_ids = None,
          lm_inputs_embeds = [[6, 8]], lm_labels = None\<rparr>
   \<and> [[6, 8]] \<noteq> [[7, 8 :: int]]"
  by (simp add: forward_def)

section \<open>The decode step with a cache\<close>

lemma set_non_attended_tokens:
  "set (non_attended_tokens model kv)
     = {(b, t). b < length (key_rows kv) \<and> t < past_length kv
          \<and> float_sum_is_zero model (map (\<lambda>h. h ! t) (key_rows kv ! b))}"
  by (auto simp: non_attended_tokens_def set_torch_where)

lemma extended_attention_mask_Inr:
  assumes "length (key_rows kv) \<le> length am"
  shows "extended_attention_mask model kv am
           = Inr (map (\<lambda>b. map (\<lambda>t. if b < length (key_rows kv)
                                          \<and> float_sum_is_zero model (map (\<lambda>h. h ! t) (key_rows kv ! b))
                                       then 0 else 1) [0..<past_length kv])
                    [0..<length am])"
proof -
  let ?T = "past_length kv"
  let ?B = "length am"
  let ?idx = "map (\<lambda>(b, t). (b, int t))
                (filter (\<lambda>(b, t). t < ?T) (non_attended_tokens model kv))"
  let ?r = "map (\<lambda>b. map (\<lambda>t. if b < length (key_rows kv)
                                          \<and> float_sum_is_zero model (map (\<lambda>h. h ! t) (key_rows kv ! b))
                                       then 0 else (1::int)) [0..<?T]) [0..<?B]"
  have sh0: "has_shape ?B ?T (replicate ?B (replicate ?T (1::int)))" by simp
  have ok: "\<forall>w\<in>set ?idx. fst w < ?B \<and> index_ok ?T (snd w)"
    using assms by (auto simp: set_non_attended_tokens index_ok_def)
  from index_fill_Inr[OF sh0 ok, of 0] obtain ext where
    ext: "index_fill (replicate ?B (replicate ?T (1::int))) ?idx 0 = Inr ext" by blast
  have she: "has_shape ?B ?T ext" by (rule index_fill_shape[OF ext sh0])
  have shr: "has_shape ?B ?T ?r" by (simp add: has_shape_def list_all_length)
  have "ext = ?r"
  proof (rule tensor_eqI[OF she shr])
    fix b t assume bt: "b < ?B" "t < ?T"
    have hit: "(\<exists>w\<in>set ?idx. fst w = b \<and> norm_index ?T (snd w) = t)
               \<longleftrightarrow> b < length (key_rows kv)
                    \<and> float_sum_is_zero model (map (\<lambda>h. h ! t) (key_rows kv ! b))"
      using bt by (auto simp: set_non_attended_tokens norm_index_def)
    show "ext ! b ! t = ?r ! b ! t"
      using index_fill_nth[OF ext sh0 bt] hit bt by simp
  qed
  with ext show ?thesis by (simp add: extended_attention_mask_def Let_def)
qed

lemma sum_list_append_mask:
  assumes "list_all (\<lambda>m. m = 0 \<or> m = (1::int)) xs" "list_all (\<lambda>m. m = 0 \<or> m = 1) ys"
  shows "sum_list (xs @ ys) = int (length (filter (\<lambda>m. m \<noteq> 0) (xs @ ys)))"
  using assms by (intro sum_list_mask) simp

lemma wrap64_sum_minus_one: "wrap64 (wrap64 s - 1) = wrap64 (s - 1)"
  using wrap64_add_left[of s "- 1"] by simp

text \<open>
  C7, as the code has it. In a decode step with token ids of length one (and no
  precomputed embeddings), a cache and time-series values present, when the token ids are
  embedded without error and the cache has at most as many rows as the attention mask:
  \<open>forward\<close> passes to the language model the extended attention mask (one entry per cache
  slot, zero exactly at the slots whose key values are found to sum to zero over the
  heads, followed by the last column of the supplied mask) and, for every row, the
  position id equal to the sum of the entries of that extended row, as a signed 64-bit
  number, minus one. For an attention mask of zeroes and ones (and a cache of fewer than
  \<open>2 ^ 63 - 1\<close> slots) this is the number of nonzero entries of the row minus one.
\<close>

theorem decode_step_position_id:
  assumes "get_input_embeddings model ids = Inr e" and "shape1 ids = 1"
    and "length (key_rows kv) \<le> length am"
  shows "\<exists>m. forward model (Some ids) (Some tsv) tsm (Some am) position_ids (Some kv) None labels
             = Inr \<lparr>lm_attention_mask = Some m,
                    lm_position_ids = Some (map (\<lambda>row. [wrap64 (sum_list row - 1)]) m),
                    lm_inputs_embeds = map (map (to_language_model_dtype model)) e,
                    lm_labels = labels\<rparr>
           \<and> m = map (\<lambda>b. map (\<lambda>t. if b < length (key_rows kv)
                                        \<and> float_sum_is_zero model (map (\<lambda>h. h ! t) (key_rows kv ! b))
                                     then 0 else 1) [0..<past_length kv]
                          @ drop (length (am ! b) - 1) (am ! b))
                    [0..<length am]
           \<and> (is_mask am \<and> int (past_length kv) + 1 < 2 ^ 63 \<longrightarrow>
                map (\<lambda>row. [wrap64 (sum_list row - 1)]) m
                  = map (\<lambda>row. [int (length (filter (\<lambda>x. x \<noteq> 0) row)) - 1]) m)"
proof -
  let ?z = "\<lambda>b t. b < length (key_rows kv)
                  \<and> float_sum_is_zero model (map (\<lambda>h. h ! t) (key_rows kv ! b))"
  let ?ext = "map (\<lambda>b. map (\<lambda>t. if ?z b t then 0 else (1::int)) [0..<past_length kv])
                [0..<length am]"
  let ?m = "map (\<lambda>b. ?ext ! b @ drop (length (am ! b) - 1) (am ! b)) [0..<length am]"
  have zipm: "map (\<lambda>(e, row). e @ drop (length row - 1) row) (zip ?ext am) = ?m"
    by (intro nth_equalityI) simp_all
  have "cache_step model kv ids (Some am)
          = Inr (map (\<lambda>(e, row). e @ drop (length row - 1) row) (zip ?ext am),
                 map (\<lambda>row. [wrap64 (wrap64 (sum_list row) - 1)])
                   (map (\<lambda>(e, row). e @ drop (length row - 1) row) (zip ?ext am)))"
    by (simp add: cache_step_def extended_attention_mask_Inr[OF assms(3)] assms(2) Let_def)
  then have cs: "cache_step model kv ids (Some am)
                   = Inr (?m, map (\<lambda>row. [wrap64 (sum_list row - 1)]) ?m)"
    unfolding zipm wrap64_sum_minus_one .
  have m: "?m = map (\<lambda>b. map (\<lambda>t. if ?z b t then 0 else 1) [0..<past_length kv]
                          @ drop (length (am ! b) - 1) (am ! b))
                    [0..<length am]"
    by (rule map_cong[OF refl]) simp
  have cnt: "map (\<lambda>row. [wrap64 (sum_list row - 1)]) ?m
               = map (\<lambda>row. [int (length (filter (\<lambda>x. x \<noteq> 0) row)) - 1]) ?m"
    if mk: "is_mask am" and small: "int (past_length kv) + 1 < 2 ^ 63"
  proof (rule map_cong[OF refl])
    fix row assume "row \<in> set ?m"
    then obtain b where b: "b < length am"
      and row: "row = ?ext ! b @ drop (length (am ! b) - 1) (am ! b)" by auto
    have 1: "list_all (\<lambda>m. m = 0 \<or> m = 1) (?ext ! b)"
      using b by (auto simp: list_all_iff)
    have "list_all (\<lambda>m. m = 0 \<or> m = 1) (am ! b)"
      using mk b by (simp add: is_mask_def list_all_length)
    then have 2: "list_all (\<lambda>m. m = 0 \<or> m = 1) (drop (length (am ! b) - 1) (am ! b))"
      by (auto simp: list_all_iff dest: in_set_dropD)
    have s: "sum_list row = int (length (filter (\<lambda>x. x \<noteq> 0) row))"
      unfolding row by (rule sum_list_append_mask[OF 1 2])
    have "length row \<le> past_length kv + 1" using b by (simp add: row)
    moreover have "length (filter (\<lambda>x. x \<noteq> 0) row) \<le> length row" by simp
    ultimately have "int (length (filter (\<lambda>x. x \<noteq> 0) row)) \<le> int (past_length kv) + 1"
      by linarith
    with small have hi: "sum_list row - 1 < 2 ^ 63" unfolding s by linarith
    have lo: "- (2 ^ 63) \<le> sum_list row - 1" unfolding s by simp
    from lo hi have "wrap64 (sum_list row - 1) = sum_list row - 1" by (rule wrap64_id)
    then show "[wrap64 (sum_list row - 1)] = [int (length (filter (\<lambda>x. x \<noteq> 0) row)) - 1]"
      using s by simp
  qed
  have "forward model (Some ids) (Some tsv) tsm (Some am) position_ids (Some kv) None labels
          = Inr \<lparr>lm_attention_mask = Some ?m,
                 lm_position_ids = Some (map (\<lambda>row. [wrap64 (sum_list row - 1)]) ?m),
                 lm_inputs_embeds = map (map (to_language_model_dtype model)) e,
                 lm_labels = labels\<rparr>"
    by (simp add: forward_def assms(1,2) cs)
  with cnt m show ?thesis by (intro exI[of _ ?m]) blast
qed

theorem decode_step_position_id_witness:
  "\<exists>m. forward \<lparr>config = \<lparr>pad_token_id = 0, time_series_token_index = 9, ignore_index = -100\<rparr>,
                 get_input_embeddings = (\<lambda>ids. Inr (map (map (\<lambda>t. t + 10)) ids)),
                 time_series_encoder = (\<lambda>(v::unit) (w::unit option). Inl RuntimeFault),
                 to_time_series_dtype = (\<lambda>x. x), to_language_model_dtype = (\<lambda>x. x),
                 float_sum_is_zero = (\<lambda>ks :: int list. sum_list ks = 0)\<rparr>
         (Some [[4], [5]]) (Some ()) None (Some [[0, 0, 1, 1], [1, 1, 1, 1]]) None
         (Some \<lparr>past_length = 3, key_rows = [[[0, 2, 0], [0, -2, 1]], [[1, 1, 1], [1, 1, 1]]]\<rparr>)
         None None
       = Inr \<lparr>lm_attention_mask = Some m,
              lm_position_ids = Some (map (\<lambda>row. [wrap64 (sum_list row - 1)]) m),
              lm_inputs_embeds = map (map (\<lambda>x. x)) [[14], [15 :: int]], lm_labels = None\<rparr>
     \<and> m = [[0, 0, 1, 1], [1, 1, 1, 1]]
     \<and> map (\<lambda>row. [wrap64 (sum_list row - 1)]) m
         = map (\<lambda>row. [int (length (filter (\<lambda>x. x \<noteq> 0) row)) - 1]) m"
proof -
  let ?model = "\<lparr>config = \<lparr>pad_token_id = 0, time_series_token_index = 9, ignore_index = -100\<rparr>,
                 get_input_embeddings = (\<lambda>ids. Inr (map (map (\<lambda>t. t + (10::int))) ids)),
                 time_series_encoder = (\<lambda>(v::unit) (w::unit option).
                    (Inl RuntimeFault :: error + int ts_features)),
                 to_time_series_dtype = (\<lambda>x. x), to_language_model_dtype = (\<lambda>x. x),
                 float_sum_is_zero = (\<lambda>ks :: int list. sum_list ks = 0)\<rparr>"
  let ?kv = "\<lparr>past_length = 3, key_rows = [[[0, 2, 0], [0, -2, 1]], [[1, 1, 1], [1, 1, 1 :: int]]]\<rparr>"
  let ?am = "[[0, 0, 1, 1], [1, 1, 1, 1 :: int]]"
  have e: "get_input_embeddings ?model [[4], [5]] = Inr [[14], [15]]" by simp
  have s: "shape1 [[4], [5 :: int]] = 1" by (simp add: shape1_def)
  have mk: "is_mask ?am \<and> int (past_length ?kv) + 1 < 2 ^ 63" by (simp add: is_mask_def)
  have l: "length (key_rows ?kv) \<le> length ?am" by simp
  have v: "map (\<lambda>b. map (\<lambda>t. if b < length (key_rows ?kv)
                                        \<and> float_sum_is_zero ?model (map (\<lambda>h. h ! t) (key_rows ?kv ! b))
                                     then 0 else 1) [0..<past_length ?kv]
                          @ drop (length (?am ! b) - 1) (?am ! b))
                    [0..<length ?am]
           = [[0, 0, 1, 1], [1, 1, 1, 1 :: int]]"
    by code_simp
  have c: "to_language_model_dtype ?model = (\<lambda>x. x)" by simp
  from decode_step_position_id[OF e s l, of "()" None None None, unfolded v c] mk
  show ?thesis by blast
qed

text \<open>
  With an attention mask that is not made of zeroes and ones the position id is not the
  number of nonzero entries minus one: for the mask row [1, 1, 2] and a cache of two
  attended slots the extended mask row is [1, 1, 2] and the position id is 3, while the
  number of nonzero entries minus one is 2.
\<close>

theorem decode_step_sum_counterexample:
  "forward \<lparr>config = \<lparr>pad_token_id = 0, time_series_token_index = 9, ignore_index = -100\<rparr>,
             get_input_embeddings = (\<lambda>ids. Inr (map (map (\<lambda>t. t + 10)) ids)),
             time_series_encoder = (\<lambda>(v::unit) (w::unit option). Inl RuntimeFault),
             to_time_series_dtype = (\<lambda>x. x), to_language_model_dtype = (\<lambda>x. x),
             float_sum_is_zero = (\<lambda>ks :: int list. sum_list ks = 0)\<rparr>
     (Some [[4]]) (Some ()) None (Some [[1, 1, 2]]) None
     (Some \<lparr>past_length = 2, key_rows = [[[1, 1], [1, 1]]]\<rparr>) None None
   = Inr \<lparr>lm_attention_mask = Some [[1, 1, 2]], lm_position_ids = Some [[3]],
          lm_inputs_embeds = [[14 :: int]], lm_labels = None\<rparr>
   \<and> (3 :: int) \<noteq> int (length (filter (\<lambda>x. x \<noteq> 0) [1, 1, 2 :: int])) - 1"
proof -
  have ext: "extended_attention_mask
       \<lparr>config = \<lparr>pad_token_id = 0, time_series_token_index = 9, ignore_index = -100\<rparr>,
             get_input_embeddings = (\<lambda>ids. Inr (map (map (\<lambda>t. t + (10 :: int))) ids)),
             time_series_encoder = (\<lambda>(v::unit) (w::unit option).
                (Inl RuntimeFault :: error + int ts_features)),
             to_time_series_dtype = (\<lambda>x. x), to_language_model_dtype = (\<lambda>x. x),
             float_sum_is_zero = (\<lambda>ks :: int list. sum_list ks = 0)\<rparr>
       \<lparr>past_length = 2, key_rows = [[[1, 1], [1, 1]]]\<rparr> [[1, 1, 2]] = Inr [[1, 1]]"
    by code_simp
  have w: "wrap64 (wrap64 4 - 1) = 3" by (simp add: wrap64_def)
  show ?thesis
    by (simp add: forward_def cache_step_def shape1_def ext w)
qed

section \<open>The projector\<close>






section \<open>Claim C6\<close>




end
